theory Spec2Isabelle
  imports Main
begin

section \<open>Strings\<close>

text \<open>
  A Python \<open>str\<close> is a sequence of Unicode code points and \<open>len\<close> counts code points; a
  JavaScript string is a sequence of UTF-16 code units. Both are modelled as lists of
  natural numbers, so that \<open>length\<close> counts what the source counts. String literals of the
  source are written \<open>lit ''...''\<close>.
\<close>

type_synonym str = "nat list"

abbreviation (input) lit :: "string \<Rightarrow> str" where
  "lit s \<equiv> map of_char s"

text \<open>
  \<open>str.strip()\<close> without argument removes leading and trailing whitespace, where whitespace is
  what \<open>str.isspace\<close> accepts: U+0009..U+000D, U+001C..U+0020, U+0085, U+00A0, U+1680,
  U+2000..U+200A, U+2028, U+2029, U+202F, U+205F, U+3000.
\<close>

definition isspace :: "nat \<Rightarrow> bool" where
  "isspace c =
     ((0x09 \<le> c \<and> c \<le> 0x0D) \<or> (0x1C \<le> c \<and> c \<le> 0x20) \<or> c = 0x85 \<or> c = 0xA0 \<or>
      c = 0x1680 \<or> (0x2000 \<le> c \<and> c \<le> 0x200A) \<or> c = 0x2028 \<or> c = 0x2029 \<or>
      c = 0x202F \<or> c = 0x205F \<or> c = 0x3000)"

definition strip :: "str \<Rightarrow> str" where
  "strip s = rev (dropWhile isspace (rev (dropWhile isspace s)))"

section \<open>The task model and the in-memory store (specs/data-model.md)\<close>

text \<open>
  \<open>datetime\<close> values are totally ordered instants of microsecond resolution: microseconds
  since \<open>datetime.min\<close>. Every call of \<open>datetime.utcnow()\<close> is an argument \<open>now\<close> of the
  operation that makes it: the reading of the clock at that call.
\<close>

type_synonym datetime = nat

text \<open>The dataclass \<open>Task\<close>; its field \<open>id\<close> is \<open>id'\<close> here.\<close>

record Task =
  id' :: int
  title :: str
  description :: str
  completed :: bool
  created_at :: datetime
  updated_at :: datetime

text \<open>
  The two exception classes. \<open>TaskNotFoundError\<close> carries the task id that its message
  \<open>f"Task {task_id} not found"\<close> formats, \<open>InvalidTaskDataError\<close> its message.
\<close>

datatype error = TaskNotFoundError int | InvalidTaskDataError string

text \<open>
  A Python \<open>dict\<close> keeps its keys in insertion order: assigning to a key that is present
  replaces the value in place, assigning to a new key appends it, \<open>del\<close> removes the entry.
  The dictionary is the list of its items in that order.
\<close>

type_synonym ('k, 'v) dict = "('k \<times> 'v) list"

fun dict_get :: "('k, 'v) dict \<Rightarrow> 'k \<Rightarrow> 'v option" where
  "dict_get [] k = None"
| "dict_get ((k', v') # d) k = (if k' = k then Some v' else dict_get d k)"

fun dict_set :: "('k, 'v) dict \<Rightarrow> 'k \<Rightarrow> 'v \<Rightarrow> ('k, 'v) dict" where
  "dict_set [] k v = [(k, v)]"
| "dict_set ((k', v') # d) k v = (if k' = k then (k', v) # d else (k', v') # dict_set d k v)"

definition dict_contains :: "('k, 'v) dict \<Rightarrow> 'k \<Rightarrow> bool" where
  "dict_contains d k = (k \<in> set (map fst d))"

definition dict_del :: "('k, 'v) dict \<Rightarrow> 'k \<Rightarrow> ('k, 'v) dict" where
  "dict_del d k = filter (\<lambda>kv. fst kv \<noteq> k) d"

definition dict_values :: "('k, 'v) dict \<Rightarrow> 'v list" where
  "dict_values d = map snd d"

text \<open>The class \<open>MemoryStore\<close>: the attributes \<open>_tasks\<close> and \<open>_next_id\<close>, and \<open>__init__\<close>.\<close>

record MemoryStore =
  tasks :: "(int, Task) dict"
  next_id :: int

definition new_MemoryStore :: MemoryStore where
  "new_MemoryStore = \<lparr>tasks = [], next_id = 1\<rparr>"

text \<open>
  Every method takes the store and returns its result with the store it leaves. A method
  that raises does so before it assigns to \<open>_tasks\<close>: its result is \<open>Inl\<close> of the error and
  the store is the one it was called on.
\<close>

definition generate_id :: "MemoryStore \<Rightarrow> int \<times> MemoryStore" where
  "generate_id s = (let current_id = next_id s in (current_id, s\<lparr>next_id := next_id s + 1\<rparr>))"

definition create :: "MemoryStore \<Rightarrow> datetime \<Rightarrow> str \<Rightarrow> str \<Rightarrow> Task \<times> MemoryStore" where
  "create s now title_arg description_arg =
     (let (task_id, s1) = generate_id s;
          task = \<lparr>id' = task_id, title = strip title_arg, description = strip description_arg,
                  completed = False, created_at = now, updated_at = now\<rparr>
      in (task, s1\<lparr>tasks := dict_set (tasks s1) task_id task\<rparr>))"

definition get :: "MemoryStore \<Rightarrow> int \<Rightarrow> Task option" where
  "get s task_id = dict_get (tasks s) task_id"

definition get_all :: "MemoryStore \<Rightarrow> Task list" where
  "get_all s = dict_values (tasks s)"

definition update ::
  "MemoryStore \<Rightarrow> datetime \<Rightarrow> int \<Rightarrow> str \<Rightarrow> str \<Rightarrow> error + (Task \<times> MemoryStore)" where
  "update s now task_id title_arg description_arg =
     (case dict_get (tasks s) task_id of
        None \<Rightarrow> Inl (TaskNotFoundError task_id)
      | Some task \<Rightarrow>
          (let updated_task =
                 \<lparr>id' = id' task, title = strip title_arg, description = strip description_arg,
                  completed = completed task, created_at = created_at task, updated_at = now\<rparr>
           in Inr (updated_task, s\<lparr>tasks := dict_set (tasks s) task_id updated_task\<rparr>)))"

definition delete :: "MemoryStore \<Rightarrow> int \<Rightarrow> bool \<times> MemoryStore" where
  "delete s task_id =
     (if dict_contains (tasks s) task_id
      then (True, s\<lparr>tasks := dict_del (tasks s) task_id\<rparr>)
      else (False, s))"

definition toggle_completion ::
  "MemoryStore \<Rightarrow> datetime \<Rightarrow> int \<Rightarrow> error + (Task \<times> MemoryStore)" where
  "toggle_completion s now task_id =
     (case dict_get (tasks s) task_id of
        None \<Rightarrow> Inl (TaskNotFoundError task_id)
      | Some task \<Rightarrow>
          (let updated_task =
                 \<lparr>id' = id' task, title = title task, description = description task,
                  completed = (\<not> completed task), created_at = created_at task,
                  updated_at = now\<rparr>
           in Inr (updated_task, s\<lparr>tasks := dict_set (tasks s) task_id updated_task\<rparr>)))"

subsection \<open>Validation rules\<close>

text \<open>
  \<open>validate_title\<close> and \<open>validate_description\<close> return \<open>None\<close> or raise; the result is
  \<open>Inr ()\<close> or \<open>Inl\<close> of the error. \<open>not title\<close> holds of the empty string only.
\<close>

definition validate_title :: "str \<Rightarrow> error + unit" where
  "validate_title title_arg =
     (if title_arg = [] \<or> length (strip title_arg) = 0
      then Inl (InvalidTaskDataError ''Title cannot be empty'')
      else if length title_arg > 200
      then Inl (InvalidTaskDataError ''Title cannot exceed 200 characters'')
      else Inr ())"

definition validate_description :: "str \<Rightarrow> error + unit" where
  "validate_description description_arg =
     (if length description_arg > 1000
      then Inl (InvalidTaskDataError ''Description cannot exceed 1000 characters'')
      else Inr ())"

subsection \<open>The service function of the constitution\<close>

text \<open>
  \<open>update_task\<close> of constitution.md ("Error Handling Pattern"): it checks the title, then
  looks the task up with \<open>storage.get\<close>, then calls \<open>storage.update\<close>.
\<close>

definition update_task ::
  "MemoryStore \<Rightarrow> datetime \<Rightarrow> int \<Rightarrow> str \<Rightarrow> str \<Rightarrow> error + (Task \<times> MemoryStore)" where
  "update_task s now task_id title_arg description_arg =
     (if title_arg = [] \<or> length (strip title_arg) = 0
      then Inl (InvalidTaskDataError ''Title cannot be empty'')
      else (case get s task_id of
              None \<Rightarrow> Inl (TaskNotFoundError task_id)
            | Some task \<Rightarrow> update s now task_id title_arg description_arg))"

subsection \<open>Histories of calls\<close>

text \<open>
  A history is the sequence of mutating calls made on a store since \<open>__init__\<close>. A call that
  raises leaves the store as it was. \<open>issued\<close> lists the ids that the \<open>create\<close> calls of a
  history returned, in the order of the calls.
\<close>

datatype command =
  Create datetime str str
| Update datetime int str str
| Delete int
| Toggle datetime int

fun exec :: "MemoryStore \<Rightarrow> command \<Rightarrow> MemoryStore" where
  "exec s (Create now title_arg description_arg) = snd (create s now title_arg description_arg)"
| "exec s (Update now task_id title_arg description_arg) =
     (case update s now task_id title_arg description_arg of Inl e \<Rightarrow> s | Inr r \<Rightarrow> snd r)"
| "exec s (Delete task_id) = snd (delete s task_id)"
| "exec s (Toggle now task_id) =
     (case toggle_completion s now task_id of Inl e \<Rightarrow> s | Inr r \<Rightarrow> snd r)"

definition run :: "command list \<Rightarrow> MemoryStore" where
  "run cs = foldl exec new_MemoryStore cs"

fun issued_from :: "MemoryStore \<Rightarrow> command list \<Rightarrow> int list" where
  "issued_from s [] = []"
| "issued_from s (Create now title_arg description_arg # cs) =
     id' (fst (create s now title_arg description_arg))
       # issued_from (exec s (Create now title_arg description_arg)) cs"
| "issued_from s (c # cs) = issued_from (exec s c) cs"

definition issued :: "command list \<Rightarrow> int list" where
  "issued cs = issued_from new_MemoryStore cs"

text \<open>
  What every store reached from \<open>__init__\<close> satisfies: the keys of \<open>_tasks\<close> are in
  ascending order, each lies between 1 and the id counter, and each task is stored under
  its own id.
\<close>

definition store_inv :: "MemoryStore \<Rightarrow> bool" where
  "store_inv s =
     (sorted_wrt (<) (map fst (tasks s)) \<and>
      (\<forall>kv\<in>set (tasks s). 1 \<le> fst kv \<and> fst kv < next_id s \<and> id' (snd kv) = fst kv) \<and>
      1 \<le> next_id s)"

text \<open>The clock readings of the \<open>create\<close> calls of a history, in the order of the calls.\<close>

fun create_times :: "command list \<Rightarrow> datetime list" where
  "create_times [] = []"
| "create_times (Create now title_arg description_arg # cs) = now # create_times cs"
| "create_times (c # cs) = create_times cs"

section \<open>The owner-scoped repository and lookup\<close>

text \<open>
  Modelled from the spec: the Task of section 3, "one row per todo item". The owner-scoped
  operations of sections 4.2 and 4.3 are missing from the sources: the store of the data
  model is single-user and has no owner, and the backend that serves
  \<open>GET /api/{user_id}/tasks/{task_id}\<close> is not there. The row has the fields of the
  dataclass and \<open>owner_id\<close>: "identifier of the owning user; set at creation, immutable".
\<close>

record OwnedTask = Task +
  owner_id :: str

text \<open>
  Modelled from the spec: the error kinds of section 7, \<open>ValidationError\<close>,
  \<open>NotFoundError\<close> and \<open>StorageError\<close>, of the missing service.
\<close>

datatype service_error = ValidationError | NotFoundError | StorageError

text \<open>
  Modelled from the spec: the state of the missing Task Repository, which "persists and
  retrieves task records keyed by identity and owner": its rows in the order of insertion,
  and the next id. The spec names no mechanism for ids that are "unique" and "never reused
  even after deletion"; the counter is that of the \<open>SERIAL\<close> column \<open>id\<close> of the \<open>tasks\<close>
  table in the Phase II overview.
\<close>

record Repository =
  rows :: "OwnedTask list"
  next_serial :: int

text \<open>
  Modelled from the spec: the missing repository before any task is created; ids
  are "positive".
\<close>

definition empty_Repository :: Repository where
  "empty_Repository = \<lparr>rows = [], next_serial = 1\<rparr>"

text \<open>
  Modelled from the spec: the missing \<open>Repository.create\<close>, section 4.2:
  "\<open>create(owner_id, title, description) -> Task\<close>: assigns a new unique \<open>id\<close>, sets
  \<open>completed=false\<close>, stamps \<open>created_at = updated_at = now\<close>." The repository does not
  trim ("repository and service never re-trim").
\<close>

definition create_repo ::
  "Repository \<Rightarrow> str \<Rightarrow> datetime \<Rightarrow> str \<Rightarrow> str \<Rightarrow> OwnedTask \<times> Repository" where
  "create_repo s owner now title_arg description_arg =
     (let task = \<lparr>id' = next_serial s, title = title_arg, description = description_arg,
                  completed = False, created_at = now, updated_at = now, owner_id = owner\<rparr>
      in (task, \<lparr>rows = rows s @ [task], next_serial = next_serial s + 1\<rparr>))"

text \<open>
  Modelled from the spec: what the missing repository operations call a "matching owned
  task" of \<open>(owner_id, task_id)\<close>: the row has that id and that owner.
\<close>

definition owned :: "str \<Rightarrow> int \<Rightarrow> OwnedTask \<Rightarrow> bool" where
  "owned owner task_id task = (id' task = task_id \<and> owner_id task = owner)"

text \<open>
  Modelled from the spec: the missing \<open>Repository.get\<close>, section 4.2:
  "\<open>get(owner_id, task_id) -> Task | not found\<close>: returns the task only if it exists and
  belongs to \<open>owner_id\<close>".
\<close>

definition get_repo :: "Repository \<Rightarrow> str \<Rightarrow> int \<Rightarrow> OwnedTask option" where
  "get_repo s owner task_id = find (owned owner task_id) (rows s)"

text \<open>
  Modelled from the spec: the missing \<open>Repository.update\<close>, section 4.2: "fails with
  \<open>NotFoundError\<close> if no matching owned task exists; otherwise replaces
  \<open>title\<close>/\<open>description\<close>, preserves \<open>id\<close>, \<open>owner_id\<close>, \<open>completed\<close>, \<open>created_at\<close>,
  refreshes \<open>updated_at\<close>"; the row is "mutated in place".
\<close>

definition update_repo ::
  "Repository \<Rightarrow> str \<Rightarrow> datetime \<Rightarrow> int \<Rightarrow> str \<Rightarrow> str \<Rightarrow> service_error + (OwnedTask \<times> Repository)" where
  "update_repo s owner now task_id title_arg description_arg =
     (case get_repo s owner task_id of
        None \<Rightarrow> Inl NotFoundError
      | Some task \<Rightarrow>
          (let updated_task = task\<lparr>title := title_arg, description := description_arg,
                                   updated_at := now\<rparr>
           in Inr (updated_task,
                   s\<lparr>rows := map (\<lambda>r. if owned owner task_id r then updated_task else r)
                                (rows s)\<rparr>)))"

text \<open>
  Modelled from the spec: the missing \<open>Repository.set_completed\<close>, section 4.2:
  "fails with \<open>NotFoundError\<close> if no matching owned task exists; otherwise sets
  \<open>completed\<close> to the given value [...] and refreshes \<open>updated_at\<close>".
\<close>

definition set_completed ::
  "Repository \<Rightarrow> str \<Rightarrow> datetime \<Rightarrow> int \<Rightarrow> bool \<Rightarrow> service_error + (OwnedTask \<times> Repository)" where
  "set_completed s owner now task_id completed_arg =
     (case get_repo s owner task_id of
        None \<Rightarrow> Inl NotFoundError
      | Some task \<Rightarrow>
          (let updated_task = task\<lparr>completed := completed_arg, updated_at := now\<rparr>
           in Inr (updated_task,
                   s\<lparr>rows := map (\<lambda>r. if owned owner task_id r then updated_task else r)
                                (rows s)\<rparr>)))"

text \<open>
  Modelled from the spec: the missing \<open>Repository.delete\<close>, section 4.2: "removes the
  task if present and owned; returns whether a row was actually removed".
\<close>

definition delete_repo :: "Repository \<Rightarrow> str \<Rightarrow> int \<Rightarrow> bool \<times> Repository" where
  "delete_repo s owner task_id =
     (if get_repo s owner task_id = None then (False, s)
      else (True, s\<lparr>rows := filter (\<lambda>r. \<not> owned owner task_id r) (rows s)\<rparr>))"

text \<open>
  Modelled from the spec: the missing service operation \<open>get_task\<close>, section 4.3:
  "\<open>get_task(owner_id, task_id) -> Task\<close>: delegates to \<open>Repository.get\<close>; fails with
  \<open>NotFoundError\<close> if absent."
\<close>

definition get_task :: "Repository \<Rightarrow> str \<Rightarrow> int \<Rightarrow> service_error + OwnedTask" where
  "get_task s owner task_id =
     (case get_repo s owner task_id of None \<Rightarrow> Inl NotFoundError | Some task \<Rightarrow> Inr task)"

text \<open>
  A history of the repository is the sequence of mutating calls made on it, by any
  owners, since it was empty. A call that fails leaves the repository as it was.
\<close>

datatype repo_call =
  Repo_create str datetime str str
| Repo_update str datetime int str str
| Repo_set_completed str datetime int bool
| Repo_delete str int

fun repo_exec :: "Repository \<Rightarrow> repo_call \<Rightarrow> Repository" where
  "repo_exec s (Repo_create owner now title_arg description_arg) =
     snd (create_repo s owner now title_arg description_arg)"
| "repo_exec s (Repo_update owner now task_id title_arg description_arg) =
     (case update_repo s owner now task_id title_arg description_arg of
        Inl e \<Rightarrow> s | Inr r \<Rightarrow> snd r)"
| "repo_exec s (Repo_set_completed owner now task_id completed_arg) =
     (case set_completed s owner now task_id completed_arg of Inl e \<Rightarrow> s | Inr r \<Rightarrow> snd r)"
| "repo_exec s (Repo_delete owner task_id) = snd (delete_repo s owner task_id)"

definition repo_run :: "repo_call list \<Rightarrow> Repository" where
  "repo_run cs = foldl repo_exec empty_Repository cs"

section \<open>The web client (frontend/src/lib, the chat widget and the dashboard page)\<close>

text \<open>
  \<open>String.prototype.trim\<close> removes leading and trailing WhiteSpace and LineTerminator code
  units: U+0009..U+000D, U+0020, U+00A0, U+1680, U+2000..U+200A, U+2028, U+2029, U+202F,
  U+205F, U+3000 and U+FEFF.
\<close>

definition js_isspace :: "nat \<Rightarrow> bool" where
  "js_isspace c =
     ((0x09 \<le> c \<and> c \<le> 0x0D) \<or> c = 0x20 \<or> c = 0xA0 \<or> c = 0x1680 \<or>
      (0x2000 \<le> c \<and> c \<le> 0x200A) \<or> c = 0x2028 \<or> c = 0x2029 \<or> c = 0x202F \<or>
      c = 0x205F \<or> c = 0x3000 \<or> c = 0xFEFF)"

definition trim :: "str \<Rightarrow> str" where
  "trim s = rev (dropWhile js_isspace (rev (dropWhile js_isspace s)))"

text \<open>
  What the client reads from its surroundings: whether \<open>window\<close> is defined, the browser's
  \<open>localStorage\<close>, and the environment variable \<open>NEXT_PUBLIC_API_URL\<close>.
\<close>

record browser =
  window_defined :: bool
  localStorage :: "(str, str) dict"
  NEXT_PUBLIC_API_URL :: "str option"

text \<open>\<open>a || b\<close> on strings: an undefined or empty \<open>a\<close> is falsy.\<close>

definition API_URL :: "browser \<Rightarrow> str" where
  "API_URL env =
     (case NEXT_PUBLIC_API_URL env of
        None \<Rightarrow> lit ''http://localhost:8000''
      | Some u \<Rightarrow> if u = [] then lit ''http://localhost:8000'' else u)"

definition getToken :: "browser \<Rightarrow> str option" where
  "getToken env =
     (if window_defined env then dict_get (localStorage env) (lit ''token'') else None)"

text \<open>
  A request as the client hands it to \<open>axios\<close> or \<open>fetch\<close>: the method, the URL, the header
  object it passes and the body before serialisation. The type \<open>'n\<close> stands for the
  JavaScript numbers; a template literal renders a number with \<open>Number::toString\<close>, which
  the functions that build such a URL take as their first argument \<open>toString\<close>.
\<close>

datatype 'n json =
  JNull
| JBool bool
| JNumber 'n
| JString str
| JObject "(string \<times> 'n json) list"

record 'n request =
  http_method :: string
  url :: str
  headers :: "(string, str) dict"
  body :: "'n json option"

text \<open>\<open>token ? {Authorization: ...} : {}\<close>: \<open>null\<close> and the empty string are falsy.\<close>

definition getAuthHeaders :: "browser \<Rightarrow> (string, str) dict" where
  "getAuthHeaders env =
     (case getToken env of
        None \<Rightarrow> []
      | Some token \<Rightarrow>
          if token = [] then [] else [(''Authorization'', lit ''Bearer '' @ token)])"

definition getTasks :: "browser \<Rightarrow> str \<Rightarrow> 'n request" where
  "getTasks env userId =
     \<lparr>http_method = ''GET'', url = API_URL env @ lit ''/api/'' @ userId @ lit ''/tasks'',
      headers = getAuthHeaders env, body = None\<rparr>"

definition createTask :: "browser \<Rightarrow> str \<Rightarrow> 'n json \<Rightarrow> 'n request" where
  "createTask env userId task =
     \<lparr>http_method = ''POST'', url = API_URL env @ lit ''/api/'' @ userId @ lit ''/tasks'',
      headers = getAuthHeaders env, body = Some task\<rparr>"

definition updateTask ::
  "('n \<Rightarrow> str) \<Rightarrow> browser \<Rightarrow> str \<Rightarrow> 'n \<Rightarrow> 'n json \<Rightarrow> 'n request" where
  "updateTask toString env userId taskId task =
     \<lparr>http_method = ''PUT'',
      url = API_URL env @ lit ''/api/'' @ userId @ lit ''/tasks/'' @ toString taskId,
      headers = getAuthHeaders env, body = Some task\<rparr>"

definition deleteTask :: "('n \<Rightarrow> str) \<Rightarrow> browser \<Rightarrow> str \<Rightarrow> 'n \<Rightarrow> 'n request" where
  "deleteTask toString env userId taskId =
     \<lparr>http_method = ''DELETE'',
      url = API_URL env @ lit ''/api/'' @ userId @ lit ''/tasks/'' @ toString taskId,
      headers = getAuthHeaders env, body = None\<rparr>"

definition toggleTaskCompletion ::
  "('n \<Rightarrow> str) \<Rightarrow> browser \<Rightarrow> str \<Rightarrow> 'n \<Rightarrow> bool \<Rightarrow> 'n request" where
  "toggleTaskCompletion toString env userId taskId completed_arg =
     \<lparr>http_method = ''PATCH'',
      url = API_URL env @ lit ''/api/'' @ userId @ lit ''/tasks/'' @ toString taskId
              @ lit ''/complete'',
      headers = getAuthHeaders env,
      body = Some (JObject [(''completed'', JBool completed_arg)])\<rparr>"

definition chatWithAI :: "browser \<Rightarrow> str \<Rightarrow> str \<Rightarrow> 'n option \<Rightarrow> 'n request" where
  "chatWithAI env userId message conversationId =
     (let payload =
            JObject [(''message'', JString message),
                     (''conversation_id'',
                      case conversationId of None \<Rightarrow> JNull | Some n \<Rightarrow> JNumber n)]
      in \<lparr>http_method = ''POST'', url = API_URL env @ lit ''/api/'' @ userId @ lit ''/chat'',
          headers = getAuthHeaders env, body = Some payload\<rparr>)"

text \<open>
  The chat widget's \<open>sendMessage\<close>: nothing is sent when the message is empty after \<open>trim\<close>;
  otherwise one \<open>fetch\<close> with the header object written in the component.
\<close>

definition sendMessage :: "str \<Rightarrow> str \<Rightarrow> 'n request option" where
  "sendMessage userId message =
     (if trim message = [] then None
      else Some \<lparr>http_method = ''POST'',
                 url = lit ''http://localhost:8000/api/'' @ userId @ lit ''/chat'',
                 headers = [(''Content-Type'', lit ''application/json'')],
                 body = Some (JObject [(''message'', JString message)])\<rparr>)"

text \<open>Whether a request carries a bearer credential in its \<open>Authorization\<close> header.\<close>

definition bearer_of :: "'n request \<Rightarrow> str option" where
  "bearer_of r =
     (case dict_get (headers r) ''Authorization'' of
        None \<Rightarrow> None
      | Some v \<Rightarrow>
          if take 7 v = lit ''Bearer '' \<and> drop 7 v \<noteq> [] then Some (drop 7 v) else None)"

subsection \<open>The dashboard page\<close>

text \<open>
  The interfaces \<open>User\<close> (auth.ts) and \<open>Task\<close> (api.ts) and the state of the \<open>Dashboard\<close>
  component; fields whose names are taken already carry a suffix. The filter is one of the
  literals \<open>'all'\<close>, \<open>'active'\<close> and \<open>'completed'\<close>.
\<close>

record User =
  id_user :: str
  email :: str
  name :: "str option"

record Task_ts =
  id_ts :: nat
  user_id :: str
  title_ts :: str
  description_ts :: str
  completed_ts :: bool
  created_at_ts :: str
  updated_at_ts :: str

datatype task_filter = F_all | F_active | F_completed

record Dashboard =
  user :: "User option"
  tasks_ui :: "Task_ts list"
  loading :: bool
  newTaskTitle :: str
  newTaskDescription :: str
  editingTask :: "Task_ts option"
  filter_ui :: task_filter
  showAddTask :: bool

text \<open>
  An awaited API call either resolves with the response data or throws; the handlers catch
  the exception and log it. The outcome of the call is the argument \<open>response\<close>, \<open>None\<close> when
  it threw. A handler is a closure over the state of the render it belongs to: what it
  reads (\<open>user\<close>, \<open>newTaskTitle\<close>, \<open>tasks\<close>) is that state, here \<open>submitted\<close>, the state
  when the form was submitted. Its \<open>set...\<close> calls run when the awaited call has settled
  and replace the fields they name in the state of that moment, here \<open>current\<close>; every
  other field stays as it is then. Where the handler returns before it awaits, or when
  nothing happened while it waited, the two states are the same.
\<close>

definition loadTasks :: "Dashboard \<Rightarrow> Task_ts list option \<Rightarrow> Dashboard" where
  "loadTasks st response =
     (case response of
        Some data \<Rightarrow> st\<lparr>tasks_ui := data, loading := False\<rparr>
      | None \<Rightarrow> st\<lparr>loading := False\<rparr>)"

definition handleCreateTask :: "Dashboard \<Rightarrow> Dashboard \<Rightarrow> Task_ts option \<Rightarrow> Dashboard" where
  "handleCreateTask submitted current response =
     (if user submitted = None \<or> trim (newTaskTitle submitted) = [] then current
      else (case response of
              None \<Rightarrow> current
            | Some task \<Rightarrow>
                current\<lparr>tasks_ui := task # tasks_ui submitted, newTaskTitle := [],
                        newTaskDescription := [], showAddTask := False\<rparr>))"

definition filteredTasks :: "Dashboard \<Rightarrow> Task_ts list" where
  "filteredTasks st =
     filter (\<lambda>task.
        if filter_ui st = F_active then \<not> completed_ts task
        else if filter_ui st = F_completed then completed_ts task
        else True) (tasks_ui st)"

text \<open>
  Ids are issued in the order of creation, so a list is in creation-ascending order when
  its ids ascend, and in the reverse of that order when they descend.
\<close>

definition oldest_first :: "Task_ts list \<Rightarrow> bool" where
  "oldest_first ts = sorted_wrt (\<lambda>a b. id_ts a < id_ts b) ts"

definition newest_first :: "Task_ts list \<Rightarrow> bool" where
  "newest_first ts = sorted_wrt (\<lambda>a b. id_ts b < id_ts a) ts"

section \<open>Properties\<close>

subsection \<open>Dictionaries\<close>

lemma dict_get_set_same: "dict_get (dict_set d k v) k = Some v"
  by (induction d) auto

lemma dict_get_set_other: "k' \<noteq> k \<Longrightarrow> dict_get (dict_set d k v) k' = dict_get d k'"
  by (induction d) auto

lemma dict_get_None_iff: "dict_get d k = None \<longleftrightarrow> k \<notin> fst ` set d"
  by (induction d) force+

lemma dict_get_del: "dict_get (dict_del d k) k' = (if k' = k then None else dict_get d k')"
  by (induction d) (auto simp: dict_del_def)

lemma dict_set_fresh: "k \<notin> fst ` set d \<Longrightarrow> dict_set d k v = d @ [(k, v)]"
  by (induction d) auto

lemma keys_dict_set_present: "k \<in> fst ` set d \<Longrightarrow> map fst (dict_set d k v) = map fst d"
  by (induction d) force+

lemma dict_del_shorter:
  assumes "k \<in> fst ` set d"
  shows "length (dict_del d k) < length d"
proof -
  from assms obtain kv where kv: "kv \<in> set d" "fst kv = k" by auto
  then show ?thesis
    unfolding dict_del_def by (intro length_filter_less[of kv]) auto
qed

lemma set_dict_set: "set (dict_set d k v) \<subseteq> insert (k, v) (set d)"
  by (induction d) (auto split: if_splits)

lemma dict_get_mem: "dict_get d k = Some v \<Longrightarrow> (k, v) \<in> set d"
  by (induction d) (auto split: if_splits)

lemma dict_get_distinct: "distinct (map fst d) \<Longrightarrow> (k, v) \<in> set d \<Longrightarrow> dict_get d k = Some v"
  by (induction d) force+

lemma dict_set_same_image:
  "dict_get d k = Some t \<Longrightarrow> f v = f t \<Longrightarrow> map (\<lambda>kv. f (snd kv)) (dict_set d k v) = map (\<lambda>kv. f (snd kv)) d"
  by (induction d) (auto split: if_splits)

subsection \<open>Trimming\<close>

lemma dropWhile_all_iff: "(\<forall>c\<in>set (dropWhile P s). P c) \<longleftrightarrow> (\<forall>c\<in>set s. P c)"
  by (induction s) auto

lemma strip_empty_iff: "strip s = [] \<longleftrightarrow> (\<forall>c\<in>set s. isspace c)"
  by (simp add: strip_def dropWhile_eq_Nil_conv dropWhile_all_iff)

lemma length_strip_le: "length (strip s) \<le> length s"
proof -
  have "length (strip s) \<le> length (rev (dropWhile isspace s))"
    unfolding strip_def length_rev [of "dropWhile isspace (rev (dropWhile isspace s))"]
    by (rule length_dropWhile_le)
  also have "\<dots> = length (dropWhile isspace s)" by simp
  also have "\<dots> \<le> length s" by (rule length_dropWhile_le)
  finally show ?thesis .
qed

subsection \<open>The invariant of the store\<close>

lemma create_eq:
  "create s now title_arg description_arg =
     (\<lparr>id' = next_id s, title = strip title_arg, description = strip description_arg,
       completed = False, created_at = now, updated_at = now\<rparr>,
      \<lparr>tasks = dict_set (tasks s) (next_id s)
         \<lparr>id' = next_id s, title = strip title_arg, description = strip description_arg,
          completed = False, created_at = now, updated_at = now\<rparr>,
       next_id = next_id s + 1\<rparr>)"
  by (cases s) (simp add: create_def generate_id_def Let_def)

lemma store_inv_new: "store_inv new_MemoryStore"
  by (simp add: store_inv_def new_MemoryStore_def)

lemma store_inv_fresh: "store_inv s \<Longrightarrow> next_id s \<notin> fst ` set (tasks s)"
  by (auto simp: store_inv_def)

lemma store_inv_create:
  assumes "store_inv s"
  shows "store_inv (snd (create s now title_arg description_arg))"
proof -
  have fresh: "next_id s \<notin> fst ` set (tasks s)"
    using assms by (rule store_inv_fresh)
  show ?thesis
    using assms
    by (auto simp: create_eq dict_set_fresh [OF fresh] store_inv_def sorted_wrt_append)
qed

lemma store_inv_replace:
  assumes "store_inv s" and "dict_get (tasks s) k = Some task" and "id' t = id' task"
  shows "store_inv (s\<lparr>tasks := dict_set (tasks s) k t\<rparr>)"
proof -
  have mem: "(k, task) \<in> set (tasks s)"
    using assms(2) by (rule dict_get_mem)
  then have k: "k \<in> fst ` set (tasks s)" by force
  have keys: "map fst (dict_set (tasks s) k t) = map fst (tasks s)"
    using k by (rule keys_dict_set_present)
  have idk: "id' t = k" "1 \<le> k" "k < next_id s"
    using assms(1,3) mem by (auto simp: store_inv_def)
  have items: "\<forall>kv\<in>set (dict_set (tasks s) k t). 1 \<le> fst kv \<and> fst kv < next_id s \<and> id' (snd kv) = fst kv"
    using set_dict_set [of "tasks s" k t] assms(1) idk by (auto simp: store_inv_def)
  show ?thesis
    using assms(1) keys items by (simp add: store_inv_def)
qed

lemma store_inv_update:
  assumes "store_inv s" and "update s now task_id title_arg description_arg = Inr r"
  shows "store_inv (snd r)"
  using assms
  by (auto simp: update_def Let_def split: option.splits intro!: store_inv_replace)

lemma store_inv_toggle:
  assumes "store_inv s" and "toggle_completion s now task_id = Inr r"
  shows "store_inv (snd r)"
  using assms
  by (auto simp: toggle_completion_def Let_def split: option.splits intro!: store_inv_replace)

lemma store_inv_delete: "store_inv s \<Longrightarrow> store_inv (snd (delete s task_id))"
  by (auto simp: delete_def store_inv_def dict_del_def sorted_wrt_map sorted_wrt_filter)

lemma store_inv_exec: "store_inv s \<Longrightarrow> store_inv (exec s c)"
  by (cases c)
     (auto simp: store_inv_create store_inv_delete split: sum.splits
           dest: store_inv_update store_inv_toggle)

lemma store_inv_foldl: "store_inv s \<Longrightarrow> store_inv (foldl exec s cs)"
  by (induction cs arbitrary: s) (simp_all add: store_inv_exec)

lemma store_inv_run: "store_inv (run cs)"
  unfolding run_def by (rule store_inv_foldl [OF store_inv_new])

subsection \<open>Histories and the ids they issue\<close>

lemma next_id_exec:
  "next_id (exec s c) = (case c of Create now t d \<Rightarrow> next_id s + 1 | _ \<Rightarrow> next_id s)"
  by (cases c)
     (auto simp: create_eq update_def toggle_completion_def delete_def Let_def
           split: sum.splits option.splits)

lemma next_id_foldl_mono: "next_id s \<le> next_id (foldl exec s cs)"
proof (induction cs arbitrary: s)
  case Nil
  show ?case by simp
next
  case (Cons c cs)
  have "next_id s \<le> next_id (exec s c)"
    by (simp add: next_id_exec split: command.splits)
  also have "\<dots> \<le> next_id (foldl exec (exec s c) cs)"
    by (rule Cons.IH)
  finally show ?case by simp
qed

lemma issued_from_upto: "issued_from s cs = [next_id s .. next_id (foldl exec s cs) - 1]"
proof (induction cs arbitrary: s)
  case Nil
  show ?case by simp
next
  case (Cons c cs)
  show ?case
  proof (cases c)
    case (Create now t d)
    have n: "next_id (exec s c) = next_id s + 1"
      by (simp add: Create create_eq)
    have "next_id s + 1 \<le> next_id (foldl exec (exec s c) cs)"
      using next_id_foldl_mono [of "exec s c" cs] n by simp
    then have "[next_id s .. next_id (foldl exec (exec s c) cs) - 1]
        = next_id s # [next_id s + 1 .. next_id (foldl exec (exec s c) cs) - 1]"
      by (simp add: upto_rec1)
    then show ?thesis
      using Cons.IH [of "exec s c"] n by (simp add: Create create_eq)
  next
    case (Update now i t d)
    have n: "next_id (exec s c) = next_id s"
      using next_id_exec [of s c] by (simp add: Update)
    have i: "issued_from s (c # cs) = issued_from (exec s c) cs"
      by (simp add: Update)
    show ?thesis
      by (simp only: i foldl_Cons Cons.IH n)
  next
    case (Delete i)
    have n: "next_id (exec s c) = next_id s"
      using next_id_exec [of s c] by (simp add: Delete)
    have i: "issued_from s (c # cs) = issued_from (exec s c) cs"
      by (simp add: Delete)
    show ?thesis
      by (simp only: i foldl_Cons Cons.IH n)
  next
    case (Toggle now i)
    have n: "next_id (exec s c) = next_id s"
      using next_id_exec [of s c] by (simp add: Toggle)
    have i: "issued_from s (c # cs) = issued_from (exec s c) cs"
      by (simp add: Toggle)
    show ?thesis
      by (simp only: i foldl_Cons Cons.IH n)
  qed
qed

lemma issued_upto: "issued cs = [1 .. next_id (run cs) - 1]"
  by (simp add: issued_def run_def issued_from_upto new_MemoryStore_def)

lemma run_snoc: "run (cs @ [c]) = exec (run cs) c"
  by (simp add: run_def)

lemma get_None_iff: "get s i = None \<longleftrightarrow> i \<notin> fst ` set (tasks s)"
  by (simp add: get_def dict_get_None_iff)

lemma create_times_append: "create_times (xs @ ys) = create_times xs @ create_times ys"
  by (induction xs rule: create_times.induct) simp_all

lemma keys_are_ids:
  assumes "store_inv s"
  shows "map id' (get_all s) = map fst (tasks s)"
  using assms by (simp add: get_all_def dict_values_def store_inv_def)

lemma keys_filter_issued:
  "map fst (tasks (run cs)) = filter (\<lambda>i. i \<in> fst ` set (tasks (run cs))) (issued cs)"
proof -
  let ?ks = "map fst (tasks (run cs))"
  have inv: "store_inv (run cs)" by (rule store_inv_run)
  have sw: "sorted_wrt (<) ?ks" using inv by (simp add: store_inv_def)
  have s1: "sorted ?ks" using sw by (rule strict_sorted_imp_sorted)
  have d1: "distinct ?ks" using sw by (simp add: strict_sorted_iff)
  have bounds: "\<forall>k\<in>set ?ks. 1 \<le> k \<and> k \<le> next_id (run cs) - 1"
    using inv by (auto simp: store_inv_def)
  have s2: "sorted (filter (\<lambda>i. i \<in> set ?ks) (issued cs))"
    unfolding issued_upto by (rule sorted_wrt_filter) simp
  have d2: "distinct (filter (\<lambda>i. i \<in> set ?ks) (issued cs))"
    by (simp add: issued_upto)
  have e: "set ?ks = set (filter (\<lambda>i. i \<in> set ?ks) (issued cs))"
    using bounds by (auto simp: issued_upto)
  have "?ks = filter (\<lambda>i. i \<in> set ?ks) (issued cs)"
    using s1 d1 s2 d2 e by (rule sorted_distinct_set_unique)
  then show ?thesis by simp
qed

lemma created_at_exec:
  assumes "store_inv s"
  shows "map created_at (get_all (exec s c)) =
    (case c of
       Create now t d \<Rightarrow> map created_at (get_all s) @ [now]
     | Delete i \<Rightarrow> map created_at (get_all (snd (delete s i)))
     | _ \<Rightarrow> map created_at (get_all s))"
proof (cases c)
  case (Create now t d)
  show ?thesis
    using dict_set_fresh [OF store_inv_fresh [OF assms]]
    by (simp add: Create create_eq get_all_def dict_values_def)
next
  case (Update now i t d)
  show ?thesis
    using dict_set_same_image [of "tasks s" i _ created_at]
    by (auto simp: Update update_def get_all_def dict_values_def Let_def comp_def
          split: option.splits)
next
  case (Delete i)
  show ?thesis by (simp add: Delete)
next
  case (Toggle now i)
  show ?thesis
    using dict_set_same_image [of "tasks s" i _ created_at]
    by (auto simp: Toggle toggle_completion_def get_all_def dict_values_def Let_def comp_def
          split: option.splits)
qed

lemma created_at_delete:
  "set (get_all (snd (delete s i))) \<subseteq> set (get_all s) \<and>
   (sorted (map created_at (get_all s)) \<longrightarrow> sorted (map created_at (get_all (snd (delete s i)))))"
proof -
  have "sorted (map (\<lambda>kv. created_at (snd kv)) (tasks s)) \<Longrightarrow>
    sorted (map (\<lambda>kv. created_at (snd kv)) (filter (\<lambda>kv. fst kv \<noteq> i) (tasks s)))"
    by (rule sorted_filter)
  then show ?thesis
    by (auto simp: delete_def get_all_def dict_values_def dict_del_def comp_def)
qed

lemma created_at_sorted:
  "sorted (create_times cs) \<Longrightarrow>
     sorted (map created_at (get_all (run cs))) \<and>
     set (map created_at (get_all (run cs))) \<subseteq> set (create_times cs)"
proof (induction cs rule: rev_induct)
  case Nil
  show ?case by (simp add: run_def new_MemoryStore_def get_all_def dict_values_def)
next
  case (snoc c cs)
  have inv: "store_inv (run cs)" by (rule store_inv_run)
  have pre: "sorted (create_times cs)"
    using snoc.prems by (simp add: create_times_append sorted_append)
  note ih = snoc.IH [OF pre]
  note step = created_at_exec [OF inv, of c]
  show ?case
  proof (cases c)
    case (Create now t d)
    have "\<forall>x\<in>set (create_times cs). x \<le> now"
      using snoc.prems by (simp add: create_times_append Create sorted_append)
    then show ?thesis
      using ih step by (auto simp: run_snoc Create create_times_append sorted_append
          simp del: exec.simps)
  next
    case (Update now i t d)
    then show ?thesis
      using ih step by (simp add: run_snoc create_times_append del: exec.simps)
  next
    case (Delete i)
    have "set (map created_at (get_all (snd (delete (run cs) i))))
        \<subseteq> set (map created_at (get_all (run cs)))"
      using created_at_delete [of "run cs" i] by auto
    then show ?thesis
      using ih step created_at_delete [of "run cs" i]
      by (simp add: run_snoc create_times_append Delete del: exec.simps) blast
  next
    case (Toggle now i)
    then show ?thesis
      using ih step by (simp add: run_snoc create_times_append del: exec.simps)
  qed
qed

subsection \<open>Completion\<close>

text \<open>
  C1, as amended. The completion operation of the store takes no \<open>completed\<close> argument:
  \<open>toggle_completion\<close> negates the field. For every task in the store, two calls in
  immediate succession both succeed; the first negates \<open>completed\<close>, the second restores the
  value it had before the first; each call sets \<open>updated_at\<close> to the clock reading of that
  call and changes nothing else of the task.
\<close>
theorem toggle_completion_twice:
  assumes "get s task_id = Some task"
  shows "\<exists>t1 s1 t2 s2.
     toggle_completion s now1 task_id = Inr (t1, s1) \<and>
     toggle_completion s1 now2 task_id = Inr (t2, s2) \<and>
     t1 = task\<lparr>completed := \<not> completed task, updated_at := now1\<rparr> \<and>
     t2 = task\<lparr>updated_at := now2\<rparr> \<and>
     completed t2 = completed task \<and>
     get s1 task_id = Some t1 \<and> get s2 task_id = Some t2"
proof -
  define t1 where "t1 = task\<lparr>completed := \<not> completed task, updated_at := now1\<rparr>"
  define s1 where "s1 = s\<lparr>tasks := dict_set (tasks s) task_id t1\<rparr>"
  define t2 where "t2 = task\<lparr>updated_at := now2\<rparr>"
  define s2 where "s2 = s1\<lparr>tasks := dict_set (tasks s1) task_id t2\<rparr>"
  have g: "dict_get (tasks s) task_id = Some task"
    using assms by (simp add: get_def)
  have r1: "\<lparr>id' = id' task, title = title task, description = description task,
      completed = (\<not> completed task), created_at = created_at task, updated_at = now1\<rparr> = t1"
    unfolding t1_def by (cases task) simp
  have first: "toggle_completion s now1 task_id = Inr (t1, s1)"
    by (simp add: toggle_completion_def g r1 s1_def Let_def)
  have g1: "dict_get (tasks s1) task_id = Some t1"
    by (simp add: s1_def dict_get_set_same)
  have r2: "\<lparr>id' = id' t1, title = title t1, description = description t1,
      completed = (\<not> completed t1), created_at = created_at t1, updated_at = now2\<rparr> = t2"
    unfolding t1_def t2_def by (cases task) simp
  have second: "toggle_completion s1 now2 task_id = Inr (t2, s2)"
    by (simp add: toggle_completion_def g1 r2 s2_def Let_def)
  have g2: "dict_get (tasks s2) task_id = Some t2"
    by (simp add: s2_def dict_get_set_same)
  have "completed t2 = completed task" by (simp add: t2_def)
  with first second g1 g2 show ?thesis
    unfolding get_def t1_def [symmetric] t2_def [symmetric] by blast
qed

theorem toggle_completion_twice_witness:
  "get \<lparr>tasks = [(1, \<lparr>id' = 1, title = lit ''a'', description = [], completed = False,
                       created_at = 10, updated_at = 10\<rparr>)], next_id = 2\<rparr> 1
     = Some \<lparr>id' = 1, title = lit ''a'', description = [], completed = False,
             created_at = 10, updated_at = 10\<rparr> \<and>
   (\<exists>t1 s1 t2 s2.
     toggle_completion \<lparr>tasks = [(1, \<lparr>id' = 1, title = lit ''a'', description = [],
         completed = False, created_at = 10, updated_at = 10\<rparr>)], next_id = 2\<rparr> 11 1 = Inr (t1, s1) \<and>
     toggle_completion s1 12 1 = Inr (t2, s2) \<and>
     completed t1 = True \<and> completed t2 = False \<and> updated_at t1 = 11 \<and> updated_at t2 = 12)"
proof -
  have h: "get \<lparr>tasks = [(1, \<lparr>id' = 1, title = lit ''a'', description = [], completed = False,
                       created_at = 10, updated_at = 10\<rparr>)], next_id = 2\<rparr> 1
     = Some \<lparr>id' = 1, title = lit ''a'', description = [], completed = False,
             created_at = 10, updated_at = 10\<rparr>"
    by (simp add: get_def)
  show ?thesis
    using h toggle_completion_twice [OF h, of 11 12] by auto
qed

text \<open>
  As the spec words it, the task is completed after the two calls. On a task that is not
  completed before the first call, both calls succeed and the task is not completed
  after the second.
\<close>
theorem toggle_completion_twice_counterexample:
  "toggle_completion
     \<lparr>tasks = [(1, \<lparr>id' = 1, title = lit ''a'', description = [], completed = False,
                    created_at = 10, updated_at = 10\<rparr>)], next_id = 2\<rparr> 11 1
     = Inr (\<lparr>id' = 1, title = lit ''a'', description = [], completed = True,
              created_at = 10, updated_at = 11\<rparr>,
            \<lparr>tasks = [(1, \<lparr>id' = 1, title = lit ''a'', description = [], completed = True,
                    created_at = 10, updated_at = 11\<rparr>)], next_id = 2\<rparr>) \<and>
   toggle_completion
     \<lparr>tasks = [(1, \<lparr>id' = 1, title = lit ''a'', description = [], completed = True,
                    created_at = 10, updated_at = 11\<rparr>)], next_id = 2\<rparr> 12 1
     = Inr (\<lparr>id' = 1, title = lit ''a'', description = [], completed = False,
              created_at = 10, updated_at = 12\<rparr>,
            \<lparr>tasks = [(1, \<lparr>id' = 1, title = lit ''a'', description = [], completed = False,
                    created_at = 10, updated_at = 12\<rparr>)], next_id = 2\<rparr>)"
  by (simp add: toggle_completion_def Let_def)

subsection \<open>Looking a task up\<close>

lemma find_owned_Some: "find (owned owner i) xs = Some t \<Longrightarrow> owned owner i t \<and> t \<in> set xs"
  by (induction xs) (auto split: if_splits)

lemma get_repo_None_iff: "get_repo s owner i = None \<longleftrightarrow> (\<forall>r\<in>set (rows s). \<not> owned owner i r)"
  by (auto simp: get_repo_def find_None_iff)

lemma create_repo_eq:
  "create_repo s owner now t d =
     (\<lparr>id' = next_serial s, title = t, description = d, completed = False, created_at = now,
       updated_at = now, owner_id = owner\<rparr>,
      \<lparr>rows = rows s @ [\<lparr>id' = next_serial s, title = t, description = d, completed = False,
                         created_at = now, updated_at = now, owner_id = owner\<rparr>],
       next_serial = next_serial s + 1\<rparr>)"
  by (simp add: create_repo_def Let_def)

text \<open>Every row has an id below the counter.\<close>

lemma rows_below_exec:
  assumes "\<forall>r\<in>set (rows s). id' r < next_serial s"
  shows "\<forall>r\<in>set (rows (repo_exec s c)). id' r < next_serial (repo_exec s c)"
proof (cases c)
  case (Repo_create owner now t d)
  then show ?thesis using assms by (auto simp: create_repo_eq)
next
  case (Repo_update owner now i t d)
  then show ?thesis
    using assms
    by (auto simp: update_repo_def get_repo_def Let_def owned_def split: option.splits
          dest!: find_owned_Some)
next
  case (Repo_set_completed owner now i b)
  then show ?thesis
    using assms
    by (auto simp: set_completed_def get_repo_def Let_def owned_def split: option.splits
          dest!: find_owned_Some)
next
  case (Repo_delete owner i)
  then show ?thesis using assms by (auto simp: delete_repo_def)
qed

lemma rows_below_foldl:
  "\<forall>r\<in>set (rows s). id' r < next_serial s \<Longrightarrow>
   \<forall>r\<in>set (rows (foldl repo_exec s cs)). id' r < next_serial (foldl repo_exec s cs)"
  by (induction cs arbitrary: s) (simp_all add: rows_below_exec)

lemma rows_below_run: "\<forall>r\<in>set (rows (repo_run cs)). id' r < next_serial (repo_run cs)"
  unfolding repo_run_def by (rule rows_below_foldl) (simp add: empty_Repository_def)

text \<open>Once issued to an owner, an id stays with that owner.\<close>

lemma id_owner_exec:
  assumes "k < next_serial s" and "\<forall>r\<in>set (rows s). id' r = k \<longrightarrow> owner_id r = b"
  shows "k < next_serial (repo_exec s c) \<and>
         (\<forall>r\<in>set (rows (repo_exec s c)). id' r = k \<longrightarrow> owner_id r = b)"
proof (cases c)
  case (Repo_create owner now t d)
  then show ?thesis using assms by (auto simp: create_repo_eq)
next
  case (Repo_update owner now i t d)
  then show ?thesis
    using assms
    by (auto simp: update_repo_def get_repo_def Let_def owned_def split: option.splits
          dest!: find_owned_Some)
next
  case (Repo_set_completed owner now i c)
  then show ?thesis
    using assms
    by (auto simp: set_completed_def get_repo_def Let_def owned_def split: option.splits
          dest!: find_owned_Some)
next
  case (Repo_delete owner i)
  then show ?thesis using assms by (auto simp: delete_repo_def)
qed

lemma id_owner_foldl:
  "k < next_serial s \<Longrightarrow> \<forall>r\<in>set (rows s). id' r = k \<longrightarrow> owner_id r = b \<Longrightarrow>
   \<forall>r\<in>set (rows (foldl repo_exec s cs)). id' r = k \<longrightarrow> owner_id r = b"
proof (induction cs arbitrary: s)
  case Nil
  then show ?case by simp
next
  case (Cons c cs)
  have "k < next_serial (repo_exec s c) \<and>
         (\<forall>r\<in>set (rows (repo_exec s c)). id' r = k \<longrightarrow> owner_id r = b)"
    using Cons.prems by (rule id_owner_exec)
  then show ?case using Cons.IH [of "repo_exec s c"] by simp
qed

lemma find_snoc_fresh: "\<forall>x\<in>set xs. \<not> P x \<Longrightarrow> P t \<Longrightarrow> find P (xs @ [t]) = Some t"
  by (induction xs) auto

lemma get_task_Inr_iff:
  "(\<exists>task. get_task s owner i = Inr task) \<longleftrightarrow>
   (\<exists>r\<in>set (rows s). id' r = i \<and> owner_id r = owner)"
  using get_repo_None_iff [of s owner i]
  by (auto simp: get_task_def owned_def split: option.splits)

text \<open>
  C2. For any two distinct owners A and B and any task created by B, after any calls made
  before the creation and any calls made after it, \<open>get_task\<close> of A on the id of that
  task fails with \<open>NotFoundError\<close>, which is also its result on an id that was never
  issued; B finds the task under that id once it is created. The lookup returns a task
  exactly when a row with that id and that owner exists, the task it returns has that id
  and that owner, and it fails in no other way than with \<open>NotFoundError\<close>.
\<close>
theorem get_task_other_owner_not_found:
  assumes "owner_a \<noteq> owner_b"
  shows "get_task (repo_run (before @ Repo_create owner_b now title_arg description_arg # after))
           owner_a (id' (fst (create_repo (repo_run before) owner_b now title_arg description_arg)))
           = Inl NotFoundError \<and>
         get_task (repo_run (before @ Repo_create owner_b now title_arg description_arg # after))
           owner_a
           (next_serial (repo_run (before @ Repo_create owner_b now title_arg description_arg # after)))
           = Inl NotFoundError \<and>
         get_task (repo_run (before @ [Repo_create owner_b now title_arg description_arg]))
           owner_b (id' (fst (create_repo (repo_run before) owner_b now title_arg description_arg)))
           = Inr (fst (create_repo (repo_run before) owner_b now title_arg description_arg)) \<and>
         (\<forall>task. get_task s owner_a i = Inr task \<longrightarrow>
            id' task = i \<and> owner_id task = owner_a \<and> task \<in> set (rows s)) \<and>
         ((\<exists>task. get_task s owner_a i = Inr task) \<longleftrightarrow>
            (\<exists>r\<in>set (rows s). id' r = i \<and> owner_id r = owner_a)) \<and>
         (\<forall>e. get_task s owner_a i = Inl e \<longrightarrow> e = NotFoundError)"
proof -
  let ?s0 = "repo_run before"
  let ?c = "Repo_create owner_b now title_arg description_arg"
  let ?t = "fst (create_repo ?s0 owner_b now title_arg description_arg)"
  let ?s1 = "repo_exec ?s0 ?c"
  let ?s2 = "repo_run (before @ ?c # after)"
  let ?k = "next_serial ?s0"
  have k: "id' ?t = ?k" by (simp add: create_repo_eq)
  have below: "\<forall>r\<in>set (rows ?s0). id' r < ?k" by (rule rows_below_run)
  have s1: "rows ?s1 = rows ?s0 @ [?t]" "next_serial ?s1 = ?k + 1" "owner_id ?t = owner_b"
    by (simp_all add: create_repo_eq)
  have own1: "\<forall>r\<in>set (rows ?s1). id' r = ?k \<longrightarrow> owner_id r = owner_b"
    using below s1 k by auto
  have s2: "?s2 = foldl repo_exec ?s1 after"
    by (simp add: repo_run_def)
  have own2: "\<forall>r\<in>set (rows ?s2). id' r = ?k \<longrightarrow> owner_id r = owner_b"
    unfolding s2
  proof (rule id_owner_foldl)
    show "?k < next_serial ?s1" unfolding s1(2) by simp
    show "\<forall>r\<in>set (rows ?s1). id' r = ?k \<longrightarrow> owner_id r = owner_b" by (rule own1)
  qed
  have "get_repo ?s2 owner_a ?k = None"
    unfolding get_repo_None_iff using own2 assms by (auto simp: owned_def)
  then have other: "get_task ?s2 owner_a (id' ?t) = Inl NotFoundError"
    by (simp add: get_task_def k)
  have "get_repo ?s2 owner_a (next_serial ?s2) = None"
    unfolding get_repo_None_iff using rows_below_run [of "before @ ?c # after"]
    by (auto simp: owned_def)
  then have absent: "get_task ?s2 owner_a (next_serial ?s2) = Inl NotFoundError"
    by (simp add: get_task_def)
  have f: "find (owned owner_b ?k) (rows ?s0 @ [?t]) = Some ?t"
    using below by (intro find_snoc_fresh) (auto simp: owned_def create_repo_eq)
  have r1: "repo_run (before @ [?c]) = ?s1"
    by (simp add: repo_run_def)
  have "get_repo ?s1 owner_b ?k = Some ?t"
    unfolding get_repo_def s1(1) by (rule f)
  then have own: "get_task (repo_run (before @ [?c])) owner_b (id' ?t) = Inr ?t"
    unfolding r1 k by (simp add: get_task_def)
  have only: "\<forall>task. get_task s owner_a i = Inr task \<longrightarrow>
            id' task = i \<and> owner_id task = owner_a \<and> task \<in> set (rows s)"
    by (auto simp: get_task_def get_repo_def owned_def split: option.splits
          dest!: find_owned_Some)
  have err: "\<forall>e. get_task s owner_a i = Inl e \<longrightarrow> e = NotFoundError"
    by (auto simp: get_task_def split: option.splits)
  from other absent own only get_task_Inr_iff [of s owner_a i] err show ?thesis
    by blast
qed

theorem get_task_other_owner_not_found_witness:
  "lit ''alice'' \<noteq> lit ''bob'' \<and>
   id' (fst (create_repo (repo_run [Repo_create (lit ''alice'') 5 (lit ''x'') []])
     (lit ''bob'') 7 (lit ''y'') [])) = 2 \<and>
   get_task (repo_run [Repo_create (lit ''alice'') 5 (lit ''x'') [],
                       Repo_create (lit ''bob'') 7 (lit ''y'') [],
                       Repo_delete (lit ''alice'') 1,
                       Repo_set_completed (lit ''bob'') 9 2 True])
     (lit ''alice'') 2 = Inl NotFoundError \<and>
   get_task (repo_run [Repo_create (lit ''alice'') 5 (lit ''x'') [],
                       Repo_create (lit ''bob'') 7 (lit ''y'') []])
     (lit ''bob'') 2
     = Inr \<lparr>id' = 2, title = lit ''y'', description = [], completed = False,
             created_at = 7, updated_at = 7, owner_id = lit ''bob''\<rparr>"
proof -
  have h: "lit ''alice'' \<noteq> lit ''bob''"
    by simp
  have r: "repo_run [Repo_create (lit ''alice'') 5 (lit ''x'') []]
    = \<lparr>rows = [\<lparr>id' = 1, title = lit ''x'', description = [], completed = False,
                  created_at = 5, updated_at = 5, owner_id = lit ''alice''\<rparr>],
       next_serial = 2\<rparr>"
    by (simp add: repo_run_def empty_Repository_def create_repo_eq)
  have c: "create_repo \<lparr>rows = [\<lparr>id' = 1, title = lit ''x'', description = [],
                  completed = False, created_at = 5, updated_at = 5,
                  owner_id = lit ''alice''\<rparr>], next_serial = 2\<rparr>
        (lit ''bob'') 7 (lit ''y'') []
    = (\<lparr>id' = 2, title = lit ''y'', description = [], completed = False,
             created_at = 7, updated_at = 7, owner_id = lit ''bob''\<rparr>,
       \<lparr>rows = [\<lparr>id' = 1, title = lit ''x'', description = [], completed = False,
                  created_at = 5, updated_at = 5, owner_id = lit ''alice''\<rparr>,
                \<lparr>id' = 2, title = lit ''y'', description = [], completed = False,
             created_at = 7, updated_at = 7, owner_id = lit ''bob''\<rparr>],
        next_serial = 3\<rparr>)"
    by (simp add: create_repo_eq)
  show ?thesis
    using h r c
      get_task_other_owner_not_found [OF h,
        of "[Repo_create (lit ''alice'') 5 (lit ''x'') []]" 7 "lit ''y''" "[]"
           "[Repo_delete (lit ''alice'') 1, Repo_set_completed (lit ''bob'') 9 2 True]"]
    by simp
qed

subsection \<open>Creating\<close>

text \<open>
  C3. After any history of calls, \<open>create\<close> returns for every title and description (the
  valid ones among them) a task with \<open>completed = False\<close> and \<open>created_at = updated_at\<close>,
  whose id is positive, is not among the ids issued before in that history (the ids of
  tasks deleted since included), and is not in use in the store. The ids issued in a
  history are pairwise distinct, and the new task is stored under its id.
\<close>
theorem create_returns_fresh_task:
  "completed (fst (create (run cs) now title_arg description_arg)) = False \<and>
   created_at (fst (create (run cs) now title_arg description_arg))
     = updated_at (fst (create (run cs) now title_arg description_arg)) \<and>
   1 \<le> id' (fst (create (run cs) now title_arg description_arg)) \<and>
   id' (fst (create (run cs) now title_arg description_arg)) \<notin> set (issued cs) \<and>
   get (run cs) (id' (fst (create (run cs) now title_arg description_arg))) = None \<and>
   issued (cs @ [Create now title_arg description_arg])
     = issued cs @ [id' (fst (create (run cs) now title_arg description_arg))] \<and>
   distinct (issued (cs @ [Create now title_arg description_arg])) \<and>
   get (snd (create (run cs) now title_arg description_arg))
       (id' (fst (create (run cs) now title_arg description_arg)))
     = Some (fst (create (run cs) now title_arg description_arg))"
proof -
  let ?s = "run cs"
  let ?r = "create ?s now title_arg description_arg"
  have inv: "store_inv ?s" by (rule store_inv_run)
  have new: "id' (fst ?r) = next_id ?s" by (simp add: create_eq)
  have pos: "1 \<le> next_id ?s" using inv by (simp add: store_inv_def)
  have unused: "get ?s (next_id ?s) = None"
    using store_inv_fresh [OF inv] by (simp add: get_None_iff)
  have never: "next_id ?s \<notin> set (issued cs)"
    by (simp add: issued_upto)
  have n: "next_id (run (cs @ [Create now title_arg description_arg])) = next_id ?s + 1"
    by (simp add: run_snoc create_eq)
  have app: "issued (cs @ [Create now title_arg description_arg]) = issued cs @ [next_id ?s]"
    using pos by (simp add: issued_upto n upto_rec2)
  have dist: "distinct (issued (cs @ [Create now title_arg description_arg]))"
    by (simp only: issued_upto distinct_upto)
  have stored: "get (snd ?r) (next_id ?s) = Some (fst ?r)"
    by (simp add: create_eq get_def dict_get_set_same)
  have fields: "completed (fst ?r) = False" "created_at (fst ?r) = updated_at (fst ?r)"
    by (simp_all add: create_eq)
  from fields pos unused never app dist stored show ?thesis
    unfolding new by simp
qed

theorem create_returns_fresh_task_witness:
  "create (run [Create 10 (lit ''a'') [], Delete 1]) 12 (lit '' Buy groceries '') (lit ''Milk'')
     = (\<lparr>id' = 2, title = lit ''Buy groceries'', description = lit ''Milk'', completed = False,
          created_at = 12, updated_at = 12\<rparr>,
        \<lparr>tasks = [(2, \<lparr>id' = 2, title = lit ''Buy groceries'', description = lit ''Milk'',
                    completed = False, created_at = 12, updated_at = 12\<rparr>)], next_id = 3\<rparr>) \<and>
   issued [Create 10 (lit ''a'') [], Delete 1] = [1] \<and>
   id' (fst (create (run [Create 10 (lit ''a'') [], Delete 1]) 12 (lit '' Buy groceries '')
     (lit ''Milk''))) \<notin> set (issued [Create 10 (lit ''a'') [], Delete 1])"
proof -
  have r: "run [Create 10 (lit ''a'') [], Delete 1] = \<lparr>tasks = [], next_id = 2\<rparr>"
    by (simp add: run_def new_MemoryStore_def create_eq delete_def dict_contains_def dict_del_def)
  have c: "create \<lparr>tasks = [], next_id = 2\<rparr> 12 (lit '' Buy groceries '') (lit ''Milk'')
     = (\<lparr>id' = 2, title = lit ''Buy groceries'', description = lit ''Milk'', completed = False,
          created_at = 12, updated_at = 12\<rparr>,
        \<lparr>tasks = [(2, \<lparr>id' = 2, title = lit ''Buy groceries'', description = lit ''Milk'',
                    completed = False, created_at = 12, updated_at = 12\<rparr>)], next_id = 3\<rparr>)"
    by (simp add: create_eq strip_def isspace_def)
  have i: "issued [Create 10 (lit ''a'') [], Delete 1] = [1]"
    by (simp add: issued_def new_MemoryStore_def create_eq)
  show ?thesis
    using r c i
      create_returns_fresh_task [of "[Create 10 (lit ''a'') [], Delete 1]" 12
        "lit '' Buy groceries ''" "lit ''Milk''"]
    by simp
qed

subsection \<open>Validating the title\<close>

text \<open>
  C4, as amended. \<open>validate_title\<close> raises "Title cannot be empty" exactly when the title
  is empty after trimming, that is when all its characters are whitespace; it raises
  "Title cannot exceed 200 characters" exactly when the title is not empty after trimming
  and its length as given, before trimming, exceeds 200; it accepts the title exactly when
  the title is not empty after trimming and its length as given is at most 200. Trimming
  never makes a title longer, so an accepted title has a trimmed length of at most 200.
\<close>
theorem validate_title_rule:
  "(validate_title t = Inl (InvalidTaskDataError ''Title cannot be empty'') \<longleftrightarrow> strip t = []) \<and>
   (strip t = [] \<longleftrightarrow> (\<forall>c\<in>set t. isspace c)) \<and>
   (validate_title t = Inl (InvalidTaskDataError ''Title cannot exceed 200 characters'')
      \<longleftrightarrow> strip t \<noteq> [] \<and> 200 < length t) \<and>
   (validate_title t = Inr () \<longleftrightarrow> strip t \<noteq> [] \<and> length t \<le> 200) \<and>
   length (strip t) \<le> length t"
proof -
  have e: "t = [] \<Longrightarrow> strip t = []" by (simp add: strip_def)
  show ?thesis
    using e length_strip_le [of t] strip_empty_iff [of t] by (auto simp: validate_title_def)
qed

theorem validate_title_rule_witness:
  "validate_title (replicate 200 0x61) = Inr () \<and>
   validate_title (replicate 201 0x61) = Inl (InvalidTaskDataError ''Title cannot exceed 200 characters'') \<and>
   validate_title (lit ''   '') = Inl (InvalidTaskDataError ''Title cannot be empty'') \<and>
   validate_title (lit ''Buy groceries'') = Inr ()"
proof -
  have a: "strip (replicate 200 0x61) \<noteq> []" "strip (replicate 201 0x61) \<noteq> []"
    "strip (lit ''   '') = []" "strip (lit ''Buy groceries'') \<noteq> []"
    by (simp_all add: strip_def isspace_def dropWhile_replicate)
  show ?thesis
    using a validate_title_rule [of "replicate 200 0x61"] validate_title_rule [of "replicate 201 0x61"]
      validate_title_rule [of "lit ''   ''"] validate_title_rule [of "lit ''Buy groceries''"]
    by simp
qed

text \<open>
  As the spec words it, a title whose trimmed length is exactly 200 characters is accepted.
  A space followed by 200 letters has a trimmed length of 200 and is rejected, since the
  limit is applied to the 201 characters given.
\<close>
theorem validate_title_trimmed_200_counterexample:
  "length (strip (0x20 # replicate 200 0x61)) = 200 \<and>
   validate_title (0x20 # replicate 200 0x61)
     = Inl (InvalidTaskDataError ''Title cannot exceed 200 characters'')"
  by (simp add: validate_title_def strip_def isspace_def dropWhile_replicate)

subsection \<open>Updating\<close>

text \<open>
  C5, as amended. For every task in the store, \<open>update\<close> succeeds and changes only
  \<open>title\<close>, \<open>description\<close> (to the trimmed arguments) and \<open>updated_at\<close>: it preserves
  \<open>id\<close>, \<open>completed\<close> and \<open>created_at\<close>, leaves every other task and the id counter as they
  were, and sets \<open>updated_at\<close> to the clock reading of the call. So \<open>updated_at\<close> strictly
  increases exactly when that reading is later than the previous \<open>updated_at\<close>.
\<close>
theorem update_frame:
  assumes "get s task_id = Some task"
  shows "\<exists>t s'.
     update s now task_id title_arg description_arg = Inr (t, s') \<and>
     t = task\<lparr>title := strip title_arg, description := strip description_arg,
              updated_at := now\<rparr> \<and>
     id' t = id' task \<and> completed t = completed task \<and> created_at t = created_at task \<and>
     updated_at t = now \<and>
     (updated_at task < updated_at t \<longleftrightarrow> updated_at task < now) \<and>
     get s' task_id = Some t \<and>
     (\<forall>i. i \<noteq> task_id \<longrightarrow> get s' i = get s i) \<and>
     next_id s' = next_id s"
proof -
  define t where "t = task\<lparr>title := strip title_arg, description := strip description_arg,
              updated_at := now\<rparr>"
  define s' where "s' = s\<lparr>tasks := dict_set (tasks s) task_id t\<rparr>"
  have g: "dict_get (tasks s) task_id = Some task"
    using assms by (simp add: get_def)
  have r: "\<lparr>id' = id' task, title = strip title_arg, description = strip description_arg,
      completed = completed task, created_at = created_at task, updated_at = now\<rparr> = t"
    unfolding t_def by (cases task) simp
  have res: "update s now task_id title_arg description_arg = Inr (t, s')"
    by (simp add: update_def g r s'_def Let_def)
  have fields: "id' t = id' task" "completed t = completed task"
    "created_at t = created_at task" "updated_at t = now"
    by (simp_all add: t_def)
  have stored: "get s' task_id = Some t"
    by (simp add: get_def s'_def dict_get_set_same)
  have others: "\<forall>i. i \<noteq> task_id \<longrightarrow> get s' i = get s i"
    by (simp add: get_def s'_def dict_get_set_other)
  have counter: "next_id s' = next_id s"
    by (simp add: s'_def)
  from res fields stored others counter show ?thesis
    unfolding t_def [symmetric] by simp
qed

theorem update_frame_witness:
  "get \<lparr>tasks = [(1, \<lparr>id' = 1, title = lit ''a'', description = [], completed = True,
                       created_at = 10, updated_at = 10\<rparr>)], next_id = 2\<rparr> 1
     = Some \<lparr>id' = 1, title = lit ''a'', description = [], completed = True,
             created_at = 10, updated_at = 10\<rparr> \<and>
   (\<exists>t s'.
     update \<lparr>tasks = [(1, \<lparr>id' = 1, title = lit ''a'', description = [], completed = True,
                       created_at = 10, updated_at = 10\<rparr>)], next_id = 2\<rparr> 25 1
         (lit '' b '') (lit ''c'') = Inr (t, s') \<and>
     id' t = 1 \<and> completed t = True \<and> created_at t = 10 \<and> updated_at t = 25 \<and>
     10 < updated_at t)"
proof -
  have h: "get \<lparr>tasks = [(1, \<lparr>id' = 1, title = lit ''a'', description = [], completed = True,
                       created_at = 10, updated_at = 10\<rparr>)], next_id = 2\<rparr> 1
     = Some \<lparr>id' = 1, title = lit ''a'', description = [], completed = True,
             created_at = 10, updated_at = 10\<rparr>"
    by (simp add: get_def)
  show ?thesis
    using h update_frame [OF h, of 25 "lit '' b ''" "lit ''c''"] by auto
qed

text \<open>
  As the spec words it, \<open>updated_at\<close> strictly increases. A task created and updated at the
  same clock reading (two calls within one tick of the clock) keeps its \<open>updated_at\<close>.
\<close>
theorem update_strictly_later_counterexample:
  "create new_MemoryStore 10 (lit ''a'') []
     = (\<lparr>id' = 1, title = lit ''a'', description = [], completed = False,
          created_at = 10, updated_at = 10\<rparr>,
        \<lparr>tasks = [(1, \<lparr>id' = 1, title = lit ''a'', description = [], completed = False,
                    created_at = 10, updated_at = 10\<rparr>)], next_id = 2\<rparr>) \<and>
   update \<lparr>tasks = [(1, \<lparr>id' = 1, title = lit ''a'', description = [], completed = False,
                    created_at = 10, updated_at = 10\<rparr>)], next_id = 2\<rparr> 10 1 (lit ''b'') []
     = Inr (\<lparr>id' = 1, title = lit ''b'', description = [], completed = False,
              created_at = 10, updated_at = 10\<rparr>,
            \<lparr>tasks = [(1, \<lparr>id' = 1, title = lit ''b'', description = [], completed = False,
                    created_at = 10, updated_at = 10\<rparr>)], next_id = 2\<rparr>) \<and>
   \<not> updated_at \<lparr>id' = 1, title = lit ''a'', description = [], completed = False,
          created_at = 10, updated_at = 10\<rparr>
       < updated_at \<lparr>id' = 1, title = lit ''b'', description = [], completed = False,
              created_at = 10, updated_at = 10\<rparr>"
  by (simp add: create_def generate_id_def new_MemoryStore_def update_def Let_def strip_def
        isspace_def)

subsection \<open>Deleting\<close>

text \<open>
  C6. \<open>delete\<close> never raises: its result is always a Boolean with a store. When no task
  has the id (never created, or deleted before) it returns \<open>False\<close> and the store as it
  was; when a task has the id it returns \<open>True\<close> and the listing gets shorter. Afterwards
  no task has the id, every other id looks up as before, the id counter is unchanged, and
  a second \<open>delete\<close> of the same id returns \<open>False\<close>.
\<close>
theorem delete_reports_removal:
  "(get s task_id = None \<longrightarrow> delete s task_id = (False, s)) \<and>
   (get s task_id \<noteq> None \<longrightarrow>
      fst (delete s task_id) = True \<and>
      length (get_all (snd (delete s task_id))) < length (get_all s)) \<and>
   get (snd (delete s task_id)) task_id = None \<and>
   (\<forall>i. i \<noteq> task_id \<longrightarrow> get (snd (delete s task_id)) i = get s i) \<and>
   next_id (snd (delete s task_id)) = next_id s \<and>
   delete (snd (delete s task_id)) task_id = (False, snd (delete s task_id))"
proof -
  have absent: "get s task_id = None \<Longrightarrow> delete s task_id = (False, s)"
    by (simp add: delete_def get_def dict_contains_def dict_get_None_iff)
  have present: "get s task_id \<noteq> None \<Longrightarrow> delete s task_id = (True, s\<lparr>tasks := dict_del (tasks s) task_id\<rparr>)"
    by (simp add: delete_def get_def dict_contains_def dict_get_None_iff)
  have gone: "get (snd (delete s task_id)) task_id = None"
    by (cases "get s task_id = None") (simp_all add: absent present, simp add: get_def dict_get_del)
  have others: "\<forall>i. i \<noteq> task_id \<longrightarrow> get (snd (delete s task_id)) i = get s i"
    by (cases "get s task_id = None") (simp_all add: absent present, simp add: get_def dict_get_del)
  have counter: "next_id (snd (delete s task_id)) = next_id s"
    by (cases "get s task_id = None") (simp_all add: absent present)
  have shorter: "get s task_id \<noteq> None \<Longrightarrow> length (get_all (snd (delete s task_id))) < length (get_all s)"
  proof -
    assume a: "get s task_id \<noteq> None"
    then have "task_id \<in> fst ` set (tasks s)"
      using dict_get_None_iff [of "tasks s" task_id] by (simp add: get_def)
    then show ?thesis
      using present [OF a] by (simp add: get_all_def dict_values_def dict_del_shorter)
  qed
  have again: "delete (snd (delete s task_id)) task_id = (False, snd (delete s task_id))"
    using gone by (simp add: delete_def get_def dict_contains_def dict_get_None_iff)
  show ?thesis
    using absent present gone others counter shorter again by simp
qed

theorem delete_reports_removal_witness:
  "delete (snd (create new_MemoryStore 10 (lit ''Buy groceries'') (lit ''Milk, eggs''))) 1
     = (True, \<lparr>tasks = [], next_id = 2\<rparr>)
   \<and> delete \<lparr>tasks = [], next_id = 2\<rparr> 1 = (False, \<lparr>tasks = [], next_id = 2\<rparr>)
   \<and> delete new_MemoryStore 7 = (False, new_MemoryStore)"
  using delete_reports_removal [of "snd (create new_MemoryStore 10 (lit ''Buy groceries'') (lit ''Milk, eggs''))" 1]
    delete_reports_removal [of new_MemoryStore 7]
  by (simp add: delete_def create_def generate_id_def new_MemoryStore_def dict_contains_def
        dict_del_def get_def Let_def)

subsection \<open>The credential of the client's requests\<close>

lemma getAuthHeaders_eq:
  "getAuthHeaders env =
     (if window_defined env
      then (case dict_get (localStorage env) (lit ''token'') of
              None \<Rightarrow> []
            | Some token \<Rightarrow>
                if token = [] then [] else [(''Authorization'', lit ''Bearer '' @ token)])
      else [])"
  by (simp add: getAuthHeaders_def getToken_def)

lemma bearer_of_auth:
  "bearer_of \<lparr>http_method = m, url = u, headers = getAuthHeaders env, body = b\<rparr> =
     (if window_defined env
      then (case dict_get (localStorage env) (lit ''token'') of
              None \<Rightarrow> None
            | Some token \<Rightarrow> if token = [] then None else Some token)
      else None)"
  by (simp add: bearer_of_def getAuthHeaders_eq split: option.splits)

text \<open>
  C7, as amended. Every request that a function of api.ts builds (\<open>getTasks\<close>,
  \<open>createTask\<close>, \<open>updateTask\<close>, \<open>deleteTask\<close>, \<open>toggleTaskCompletion\<close>, \<open>chatWithAI\<close>), for
  every user and argument, carries the stored token as bearer credential in its
  \<open>Authorization\<close> header exactly when \<open>window\<close> is defined and \<open>localStorage\<close> holds a
  non-empty \<open>token\<close>; in every other case (no \<open>window\<close>, no token stored, an empty token)
  its header object is empty and it carries no \<open>Authorization\<close> header at all.
\<close>
theorem api_requests_carry_stored_token:
  assumes "r \<in> {getTasks env userId, createTask env userId task,
                 updateTask toString env userId taskId task,
                 deleteTask toString env userId taskId,
                 toggleTaskCompletion toString env userId taskId completed_arg,
                 chatWithAI env userId message conversationId}"
  shows "headers r =
           (if window_defined env
            then (case dict_get (localStorage env) (lit ''token'') of
                    None \<Rightarrow> []
                  | Some token \<Rightarrow>
                      if token = [] then []
                      else [(''Authorization'', lit ''Bearer '' @ token)])
            else []) \<and>
         bearer_of r =
           (if window_defined env
            then (case dict_get (localStorage env) (lit ''token'') of
                    None \<Rightarrow> None
                  | Some token \<Rightarrow> if token = [] then None else Some token)
            else None)"
proof -
  have h: "headers r = getAuthHeaders env"
    using assms
    by (auto simp: getTasks_def createTask_def updateTask_def deleteTask_def
          toggleTaskCompletion_def chatWithAI_def Let_def)
  have "bearer_of r = bearer_of \<lparr>http_method = http_method r, url = url r,
      headers = getAuthHeaders env, body = body r\<rparr>"
    using h by (simp add: bearer_of_def)
  then have b: "bearer_of r =
           (if window_defined env
            then (case dict_get (localStorage env) (lit ''token'') of
                    None \<Rightarrow> None
                  | Some token \<Rightarrow> if token = [] then None else Some token)
            else None)"
    by (simp only: bearer_of_auth)
  from h have "headers r =
           (if window_defined env
            then (case dict_get (localStorage env) (lit ''token'') of
                    None \<Rightarrow> []
                  | Some token \<Rightarrow>
                      if token = [] then []
                      else [(''Authorization'', lit ''Bearer '' @ token)])
            else [])"
    by (simp only: getAuthHeaders_eq)
  with b show ?thesis by (rule conjI [rotated])
qed

theorem api_requests_carry_stored_token_witness:
  "toggleTaskCompletion (\<lambda>n. [0x30 + n])
     \<lparr>window_defined = True, localStorage = [(lit ''token'', lit ''abc'')],
      NEXT_PUBLIC_API_URL = None\<rparr> (lit ''u1'') (7::nat) True
   = \<lparr>http_method = ''PATCH'', url = lit ''http://localhost:8000/api/u1/tasks/7/complete'',
      headers = [(''Authorization'', lit ''Bearer abc'')],
      body = Some (JObject [(''completed'', JBool True)])\<rparr> \<and>
   bearer_of (toggleTaskCompletion (\<lambda>n. [0x30 + n])
     \<lparr>window_defined = True, localStorage = [(lit ''token'', lit ''abc'')],
      NEXT_PUBLIC_API_URL = None\<rparr> (lit ''u1'') (7::nat) True) = Some (lit ''abc'') \<and>
   (getTasks
     \<lparr>window_defined = False, localStorage = [(lit ''token'', lit ''abc'')],
      NEXT_PUBLIC_API_URL = None\<rparr> (lit ''u1'') :: nat request)
   = \<lparr>http_method = ''GET'', url = lit ''http://localhost:8000/api/u1/tasks'',
      headers = [], body = None\<rparr> \<and>
   bearer_of (getTasks
     \<lparr>window_defined = False, localStorage = [(lit ''token'', lit ''abc'')],
      NEXT_PUBLIC_API_URL = None\<rparr> (lit ''u1'') :: nat request) = None"
proof -
  let ?on = "\<lparr>window_defined = True, localStorage = [(lit ''token'', lit ''abc'')],
      NEXT_PUBLIC_API_URL = None\<rparr>"
  let ?off = "\<lparr>window_defined = False, localStorage = [(lit ''token'', lit ''abc'')],
      NEXT_PUBLIC_API_URL = None\<rparr>"
  let ?f = "\<lambda>n::nat. [0x30 + n]"
  have h1: "toggleTaskCompletion ?f ?on (lit ''u1'') 7 True
    \<in> {getTasks ?on (lit ''u1''), createTask ?on (lit ''u1'') JNull,
        updateTask ?f ?on (lit ''u1'') 7 JNull, deleteTask ?f ?on (lit ''u1'') 7,
        toggleTaskCompletion ?f ?on (lit ''u1'') 7 True,
        chatWithAI ?on (lit ''u1'') (lit ''hi'') None}"
    by simp
  have h2: "(getTasks ?off (lit ''u1'') :: nat request)
    \<in> {getTasks ?off (lit ''u1''), createTask ?off (lit ''u1'') JNull,
        updateTask ?f ?off (lit ''u1'') 7 JNull, deleteTask ?f ?off (lit ''u1'') 7,
        toggleTaskCompletion ?f ?off (lit ''u1'') 7 True,
        chatWithAI ?off (lit ''u1'') (lit ''hi'') None}"
    by simp
  have v1: "toggleTaskCompletion ?f ?on (lit ''u1'') 7 True
   = \<lparr>http_method = ''PATCH'', url = lit ''http://localhost:8000/api/u1/tasks/7/complete'',
      headers = [(''Authorization'', lit ''Bearer abc'')],
      body = Some (JObject [(''completed'', JBool True)])\<rparr>"
    by (simp add: toggleTaskCompletion_def API_URL_def getAuthHeaders_def getToken_def)
  have v2: "(getTasks ?off (lit ''u1'') :: nat request)
   = \<lparr>http_method = ''GET'', url = lit ''http://localhost:8000/api/u1/tasks'',
      headers = [], body = None\<rparr>"
    by (simp add: getTasks_def API_URL_def getAuthHeaders_def getToken_def)
  show ?thesis
    using v1 v2 api_requests_carry_stored_token [OF h1] api_requests_carry_stored_token [OF h2]
    by simp
qed

text \<open>
  As the spec words it, every request carries a bearer credential. With nothing in
  \<open>localStorage\<close>, \<open>getTasks\<close> sends its request without \<open>Authorization\<close> header; and the
  request of the chat widget's \<open>sendMessage\<close> has the header \<open>Content-Type\<close> only.
\<close>
theorem request_without_bearer_counterexample:
  "(getTasks \<lparr>window_defined = True, localStorage = [], NEXT_PUBLIC_API_URL = None\<rparr>
      (lit ''u1'') :: nat request)
     = \<lparr>http_method = ''GET'', url = lit ''http://localhost:8000/api/u1/tasks'',
        headers = [], body = None\<rparr> \<and>
   bearer_of (\<lparr>http_method = ''GET'', url = lit ''http://localhost:8000/api/u1/tasks'',
        headers = [], body = None\<rparr> :: nat request) = None \<and>
   (sendMessage (lit ''u1'') (lit ''add a task'') :: nat request option)
     = Some \<lparr>http_method = ''POST'', url = lit ''http://localhost:8000/api/u1/chat'',
        headers = [(''Content-Type'', lit ''application/json'')],
        body = Some (JObject [(''message'', JString (lit ''add a task''))])\<rparr> \<and>
   bearer_of (\<lparr>http_method = ''POST'', url = lit ''http://localhost:8000/api/u1/chat'',
        headers = [(''Content-Type'', lit ''application/json'')],
        body = Some (JObject [(''message'', JString (lit ''add a task''))])\<rparr> :: nat request)
     = None"
  by (simp add: getTasks_def API_URL_def getAuthHeaders_def getToken_def bearer_of_def
        sendMessage_def trim_def js_isspace_def)

subsection \<open>Listing\<close>

text \<open>
  C8. After any history of calls, \<open>get_all\<close> lists the tasks in insertion order: the ids
  of the listing are the ids issued by the history, in the order they were issued, without
  those no longer in the store. Every listed task is the one stored under its id, every
  stored task is listed, and a task created next is appended at the end. When the clock
  readings of the \<open>create\<close> calls do not decrease, the listing is in ascending order of
  \<open>created_at\<close>.
\<close>
theorem get_all_insertion_order:
  "map id' (get_all (run cs)) = filter (\<lambda>i. get (run cs) i \<noteq> None) (issued cs) \<and>
   (\<forall>t\<in>set (get_all (run cs)). get (run cs) (id' t) = Some t) \<and>
   (\<forall>i t. get (run cs) i = Some t \<longrightarrow> t \<in> set (get_all (run cs))) \<and>
   get_all (run (cs @ [Create now title_arg description_arg]))
     = get_all (run cs) @ [fst (create (run cs) now title_arg description_arg)] \<and>
   (sorted (create_times cs) \<longrightarrow> sorted (map created_at (get_all (run cs))))"
proof -
  let ?s = "run cs"
  have inv: "store_inv ?s" by (rule store_inv_run)
  have order: "map id' (get_all ?s) = filter (\<lambda>i. get ?s i \<noteq> None) (issued cs)"
    using keys_filter_issued [of cs] by (simp add: keys_are_ids [OF inv] get_None_iff)
  have dk: "distinct (map fst (tasks ?s))"
    using inv by (simp add: store_inv_def strict_sorted_iff)
  have current: "\<forall>t\<in>set (get_all ?s). get ?s (id' t) = Some t"
  proof
    fix t assume "t \<in> set (get_all ?s)"
    then obtain k where k: "(k, t) \<in> set (tasks ?s)"
      by (auto simp: get_all_def dict_values_def)
    then have "id' t = k" using inv by (auto simp: store_inv_def)
    then show "get ?s (id' t) = Some t"
      using dict_get_distinct [OF dk k] by (simp add: get_def)
  qed
  have complete: "\<forall>i t. get ?s i = Some t \<longrightarrow> t \<in> set (get_all ?s)"
    using dict_get_mem [of "tasks ?s"] by (force simp: get_def get_all_def dict_values_def)
  have appended: "get_all (run (cs @ [Create now title_arg description_arg]))
     = get_all ?s @ [fst (create ?s now title_arg description_arg)]"
    using dict_set_fresh [OF store_inv_fresh [OF inv]]
    by (simp add: run_snoc create_eq get_all_def dict_values_def)
  have times: "sorted (create_times cs) \<longrightarrow> sorted (map created_at (get_all ?s))"
    using created_at_sorted [of cs] by simp
  from order current complete appended times show ?thesis by simp
qed

theorem get_all_insertion_order_witness:
  "sorted (create_times [Create 10 (lit ''a'') [], Create 11 (lit ''b'') [],
      Create 12 (lit ''c'') [], Update 13 1 (lit ''d'') [], Delete 2, Toggle 14 3]) \<and>
   get_all (run [Create 10 (lit ''a'') [], Create 11 (lit ''b'') [],
      Create 12 (lit ''c'') [], Update 13 1 (lit ''d'') [], Delete 2, Toggle 14 3])
     = [\<lparr>id' = 1, title = lit ''d'', description = [], completed = False,
         created_at = 10, updated_at = 13\<rparr>,
        \<lparr>id' = 3, title = lit ''c'', description = [], completed = True,
         created_at = 12, updated_at = 14\<rparr>] \<and>
   issued [Create 10 (lit ''a'') [], Create 11 (lit ''b'') [],
      Create 12 (lit ''c'') [], Update 13 1 (lit ''d'') [], Delete 2, Toggle 14 3] = [1, 2, 3] \<and>
   sorted (map created_at (get_all (run [Create 10 (lit ''a'') [], Create 11 (lit ''b'') [],
      Create 12 (lit ''c'') [], Update 13 1 (lit ''d'') [], Delete 2, Toggle 14 3])))"
proof -
  have h: "sorted (create_times [Create 10 (lit ''a'') [], Create 11 (lit ''b'') [],
      Create 12 (lit ''c'') [], Update 13 1 (lit ''d'') [], Delete 2, Toggle 14 3])"
    by simp
  have r: "run [Create 10 (lit ''a'') [], Create 11 (lit ''b'') [],
      Create 12 (lit ''c'') [], Update 13 1 (lit ''d'') [], Delete 2, Toggle 14 3]
     = \<lparr>tasks = [(1, \<lparr>id' = 1, title = lit ''d'', description = [], completed = False,
         created_at = 10, updated_at = 13\<rparr>),
        (3, \<lparr>id' = 3, title = lit ''c'', description = [], completed = True,
         created_at = 12, updated_at = 14\<rparr>)], next_id = 4\<rparr>"
    by (simp add: run_def new_MemoryStore_def create_eq update_def toggle_completion_def
          delete_def dict_contains_def dict_del_def strip_def isspace_def Let_def)
  have i: "issued [Create 10 (lit ''a'') [], Create 11 (lit ''b'') [],
      Create 12 (lit ''c'') [], Update 13 1 (lit ''d'') [], Delete 2, Toggle 14 3] = [1, 2, 3]"
    by (simp add: issued_def new_MemoryStore_def create_eq update_def toggle_completion_def
          delete_def dict_contains_def dict_del_def strip_def isspace_def Let_def)
  show ?thesis
    using h r i
      get_all_insertion_order [of "[Create 10 (lit ''a'') [], Create 11 (lit ''b'') [],
        Create 12 (lit ''c'') [], Update 13 1 (lit ''d'') [], Delete 2, Toggle 14 3]"]
    by (simp add: get_all_def dict_values_def)
qed

subsection \<open>The order of validation\<close>

text \<open>
  C9. The title is to be validated before the description, so that an input with both
  fields invalid reports the title error. A title of 201 letters and a description of 1001
  letters are both invalid: \<open>validate_title\<close> and \<open>validate_description\<close> reject them.
  \<open>update_task\<close> checks the title for emptiness only and the description not at all: on
  a store that holds the task it reports no error for this input and stores both fields.
\<close>
theorem update_task_both_fields_too_long:
  "validate_title (replicate 201 0x61)
     = Inl (InvalidTaskDataError ''Title cannot exceed 200 characters'') \<and>
   validate_description (replicate 1001 0x62)
     = Inl (InvalidTaskDataError ''Description cannot exceed 1000 characters'') \<and>
   update_task
     \<lparr>tasks = [(1, \<lparr>id' = 1, title = lit ''a'', description = [], completed = False,
                    created_at = 10, updated_at = 10\<rparr>)], next_id = 2\<rparr>
     20 1 (replicate 201 0x61) (replicate 1001 0x62)
     = Inr (\<lparr>id' = 1, title = replicate 201 0x61, description = replicate 1001 0x62,
              completed = False, created_at = 10, updated_at = 20\<rparr>,
            \<lparr>tasks = [(1, \<lparr>id' = 1, title = replicate 201 0x61,
                    description = replicate 1001 0x62, completed = False,
                    created_at = 10, updated_at = 20\<rparr>)], next_id = 2\<rparr>)"
  by (simp add: validate_title_def validate_description_def update_task_def update_def get_def
        strip_def isspace_def dropWhile_replicate Let_def)

subsection \<open>Creating a task in the dashboard\<close>

text \<open>
  C10, as amended. After a successful create in the dashboard (a user is signed in, the
  title is not empty after \<open>trim\<close>, the API call resolves), the local task list is the new
  task followed by the tasks that were in the list when the form was submitted, in their
  order; the other fields are those of the moment the call settles, with the form cleared
  and closed. The new task heads the displayed list unless the filter then in force hides
  it. The list is in the reverse of creation-ascending order afterwards exactly when the
  submitted list was and the new id is greater than every id in it. A reload replaces the
  list by the server's. A failed call changes nothing.
\<close>
theorem handleCreateTask_prepends:
  assumes "user submitted \<noteq> None" and "trim (newTaskTitle submitted) \<noteq> []"
  shows "tasks_ui (handleCreateTask submitted current (Some task)) = task # tasks_ui submitted \<and>
         handleCreateTask submitted current (Some task) =
           current\<lparr>tasks_ui := task # tasks_ui submitted, newTaskTitle := [],
                   newTaskDescription := [], showAddTask := False\<rparr> \<and>
         tasks_ui (handleCreateTask submitted submitted (Some task)) = task # tasks_ui submitted \<and>
         filteredTasks (handleCreateTask submitted current (Some task)) =
           (if (filter_ui current = F_active \<and> completed_ts task) \<or>
               (filter_ui current = F_completed \<and> \<not> completed_ts task)
            then filteredTasks (current\<lparr>tasks_ui := tasks_ui submitted\<rparr>)
            else task # filteredTasks (current\<lparr>tasks_ui := tasks_ui submitted\<rparr>)) \<and>
         (newest_first (tasks_ui (handleCreateTask submitted current (Some task))) \<longleftrightarrow>
            newest_first (tasks_ui submitted) \<and>
            (\<forall>t\<in>set (tasks_ui submitted). id_ts t < id_ts task)) \<and>
         tasks_ui (loadTasks (handleCreateTask submitted current (Some task)) (Some data)) = data \<and>
         handleCreateTask submitted current None = current"
  using assms
  by (auto simp: handleCreateTask_def filteredTasks_def newest_first_def loadTasks_def)

theorem handleCreateTask_prepends_witness:
  "user
     \<lparr>user = Some \<lparr>id_user = lit ''u1'', email = lit ''a@b.c'', name = None\<rparr>,
      tasks_ui =
       [\<lparr>id_ts = 1, user_id = lit ''u1'', title_ts = lit ''a'', description_ts = [],
        completed_ts = False, created_at_ts = lit ''2025-12-04'',
        updated_at_ts = lit ''2025-12-04''\<rparr>,
        \<lparr>id_ts = 2, user_id = lit ''u1'', title_ts = lit ''b'', description_ts = [],
        completed_ts = False, created_at_ts = lit ''2025-12-05'',
        updated_at_ts = lit ''2025-12-05''\<rparr>],
      loading = False, newTaskTitle = lit ''c'', newTaskDescription = [],
      editingTask = None, filter_ui = F_all, showAddTask = True\<rparr> \<noteq> None \<and>
   trim (lit ''c'') \<noteq> [] \<and>
   handleCreateTask
     \<lparr>user = Some \<lparr>id_user = lit ''u1'', email = lit ''a@b.c'', name = None\<rparr>,
      tasks_ui =
       [\<lparr>id_ts = 1, user_id = lit ''u1'', title_ts = lit ''a'', description_ts = [],
        completed_ts = False, created_at_ts = lit ''2025-12-04'',
        updated_at_ts = lit ''2025-12-04''\<rparr>,
        \<lparr>id_ts = 2, user_id = lit ''u1'', title_ts = lit ''b'', description_ts = [],
        completed_ts = False, created_at_ts = lit ''2025-12-05'',
        updated_at_ts = lit ''2025-12-05''\<rparr>],
      loading = False, newTaskTitle = lit ''c'', newTaskDescription = [],
      editingTask = None, filter_ui = F_all, showAddTask = True\<rparr>
     \<lparr>user = Some \<lparr>id_user = lit ''u1'', email = lit ''a@b.c'', name = None\<rparr>,
      tasks_ui =
       [\<lparr>id_ts = 1, user_id = lit ''u1'', title_ts = lit ''a'', description_ts = [],
        completed_ts = False, created_at_ts = lit ''2025-12-04'',
        updated_at_ts = lit ''2025-12-04''\<rparr>,
        \<lparr>id_ts = 2, user_id = lit ''u1'', title_ts = lit ''b'', description_ts = [],
        completed_ts = False, created_at_ts = lit ''2025-12-05'',
        updated_at_ts = lit ''2025-12-05''\<rparr>,
        \<lparr>id_ts = 9, user_id = lit ''u1'', title_ts = lit ''z'', description_ts = [],
        completed_ts = False, created_at_ts = lit ''2025-12-06'',
        updated_at_ts = lit ''2025-12-06''\<rparr>],
      loading = False, newTaskTitle = lit ''c'', newTaskDescription = [],
      editingTask = None, filter_ui = F_all, showAddTask = True\<rparr>
     (Some \<lparr>id_ts = 3, user_id = lit ''u1'', title_ts = lit ''c'', description_ts = [],
        completed_ts = False, created_at_ts = lit ''2025-12-06'',
        updated_at_ts = lit ''2025-12-06''\<rparr>)
   = \<lparr>user = Some \<lparr>id_user = lit ''u1'', email = lit ''a@b.c'', name = None\<rparr>,
      tasks_ui =
       [\<lparr>id_ts = 3, user_id = lit ''u1'', title_ts = lit ''c'', description_ts = [],
        completed_ts = False, created_at_ts = lit ''2025-12-06'',
        updated_at_ts = lit ''2025-12-06''\<rparr>,
        \<lparr>id_ts = 1, user_id = lit ''u1'', title_ts = lit ''a'', description_ts = [],
        completed_ts = False, created_at_ts = lit ''2025-12-04'',
        updated_at_ts = lit ''2025-12-04''\<rparr>,
        \<lparr>id_ts = 2, user_id = lit ''u1'', title_ts = lit ''b'', description_ts = [],
        completed_ts = False, created_at_ts = lit ''2025-12-05'',
        updated_at_ts = lit ''2025-12-05''\<rparr>],
      loading = False, newTaskTitle = [], newTaskDescription = [],
      editingTask = None, filter_ui = F_all, showAddTask = False\<rparr> \<and>
   tasks_ui (handleCreateTask
     \<lparr>user = Some \<lparr>id_user = lit ''u1'', email = lit ''a@b.c'', name = None\<rparr>,
      tasks_ui =
       [\<lparr>id_ts = 1, user_id = lit ''u1'', title_ts = lit ''a'', description_ts = [],
        completed_ts = False, created_at_ts = lit ''2025-12-04'',
        updated_at_ts = lit ''2025-12-04''\<rparr>,
        \<lparr>id_ts = 2, user_id = lit ''u1'', title_ts = lit ''b'', description_ts = [],
        completed_ts = False, created_at_ts = lit ''2025-12-05'',
        updated_at_ts = lit ''2025-12-05''\<rparr>],
      loading = False, newTaskTitle = lit ''c'', newTaskDescription = [],
      editingTask = None, filter_ui = F_all, showAddTask = True\<rparr>
     \<lparr>user = Some \<lparr>id_user = lit ''u1'', email = lit ''a@b.c'', name = None\<rparr>,
      tasks_ui =
       [\<lparr>id_ts = 1, user_id = lit ''u1'', title_ts = lit ''a'', description_ts = [],
        completed_ts = False, created_at_ts = lit ''2025-12-04'',
        updated_at_ts = lit ''2025-12-04''\<rparr>,
        \<lparr>id_ts = 2, user_id = lit ''u1'', title_ts = lit ''b'', description_ts = [],
        completed_ts = False, created_at_ts = lit ''2025-12-05'',
        updated_at_ts = lit ''2025-12-05''\<rparr>],
      loading = False, newTaskTitle = lit ''c'', newTaskDescription = [],
      editingTask = None, filter_ui = F_all, showAddTask = True\<rparr>
     (Some \<lparr>id_ts = 3, user_id = lit ''u1'', title_ts = lit ''c'', description_ts = [],
        completed_ts = False, created_at_ts = lit ''2025-12-06'',
        updated_at_ts = lit ''2025-12-06''\<rparr>))
   = [\<lparr>id_ts = 3, user_id = lit ''u1'', title_ts = lit ''c'', description_ts = [],
        completed_ts = False, created_at_ts = lit ''2025-12-06'',
        updated_at_ts = lit ''2025-12-06''\<rparr>,
        \<lparr>id_ts = 1, user_id = lit ''u1'', title_ts = lit ''a'', description_ts = [],
        completed_ts = False, created_at_ts = lit ''2025-12-04'',
        updated_at_ts = lit ''2025-12-04''\<rparr>,
        \<lparr>id_ts = 2, user_id = lit ''u1'', title_ts = lit ''b'', description_ts = [],
        completed_ts = False, created_at_ts = lit ''2025-12-05'',
        updated_at_ts = lit ''2025-12-05''\<rparr>]"
proof -
  have h1: "user
     \<lparr>user = Some \<lparr>id_user = lit ''u1'', email = lit ''a@b.c'', name = None\<rparr>,
      tasks_ui =
       [\<lparr>id_ts = 1, user_id = lit ''u1'', title_ts = lit ''a'', description_ts = [],
        completed_ts = False, created_at_ts = lit ''2025-12-04'',
        updated_at_ts = lit ''2025-12-04''\<rparr>,
        \<lparr>id_ts = 2, user_id = lit ''u1'', title_ts = lit ''b'', description_ts = [],
        completed_ts = False, created_at_ts = lit ''2025-12-05'',
        updated_at_ts = lit ''2025-12-05''\<rparr>],
      loading = False, newTaskTitle = lit ''c'', newTaskDescription = [],
      editingTask = None, filter_ui = F_all, showAddTask = True\<rparr> \<noteq> None"
    by simp
  have t: "trim (lit ''c'') \<noteq> []"
    by (simp add: trim_def js_isspace_def)
  then have h2: "trim (newTaskTitle
     \<lparr>user = Some \<lparr>id_user = lit ''u1'', email = lit ''a@b.c'', name = None\<rparr>,
      tasks_ui =
       [\<lparr>id_ts = 1, user_id = lit ''u1'', title_ts = lit ''a'', description_ts = [],
        completed_ts = False, created_at_ts = lit ''2025-12-04'',
        updated_at_ts = lit ''2025-12-04''\<rparr>,
        \<lparr>id_ts = 2, user_id = lit ''u1'', title_ts = lit ''b'', description_ts = [],
        completed_ts = False, created_at_ts = lit ''2025-12-05'',
        updated_at_ts = lit ''2025-12-05''\<rparr>],
      loading = False, newTaskTitle = lit ''c'', newTaskDescription = [],
      editingTask = None, filter_ui = F_all, showAddTask = True\<rparr>) \<noteq> []"
    by simp
  show ?thesis
    using h1 t
      handleCreateTask_prepends [OF h1 h2, of
        "\<lparr>user = Some \<lparr>id_user = lit ''u1'', email = lit ''a@b.c'', name = None\<rparr>,
      tasks_ui =
       [\<lparr>id_ts = 1, user_id = lit ''u1'', title_ts = lit ''a'', description_ts = [],
        completed_ts = False, created_at_ts = lit ''2025-12-04'',
        updated_at_ts = lit ''2025-12-04''\<rparr>,
        \<lparr>id_ts = 2, user_id = lit ''u1'', title_ts = lit ''b'', description_ts = [],
        completed_ts = False, created_at_ts = lit ''2025-12-05'',
        updated_at_ts = lit ''2025-12-05''\<rparr>,
        \<lparr>id_ts = 9, user_id = lit ''u1'', title_ts = lit ''z'', description_ts = [],
        completed_ts = False, created_at_ts = lit ''2025-12-06'',
        updated_at_ts = lit ''2025-12-06''\<rparr>],
      loading = False, newTaskTitle = lit ''c'', newTaskDescription = [],
      editingTask = None, filter_ui = F_all, showAddTask = True\<rparr>"
        "\<lparr>id_ts = 3, user_id = lit ''u1'', title_ts = lit ''c'', description_ts = [],
        completed_ts = False, created_at_ts = lit ''2025-12-06'',
        updated_at_ts = lit ''2025-12-06''\<rparr>"]
    by simp
qed

text \<open>
  As the spec words it, the list is in the reverse of creation-ascending order after the
  create. With two tasks on display in creation-ascending order, the list after the create
  is the new task followed by those two: neither ascending nor descending.
\<close>
theorem handleCreateTask_not_newest_first_counterexample:
  "oldest_first
     [\<lparr>id_ts = 1, user_id = lit ''u1'', title_ts = lit ''a'', description_ts = [],
        completed_ts = False, created_at_ts = lit ''2025-12-04'',
        updated_at_ts = lit ''2025-12-04''\<rparr>,
        \<lparr>id_ts = 2, user_id = lit ''u1'', title_ts = lit ''b'', description_ts = [],
        completed_ts = False, created_at_ts = lit ''2025-12-05'',
        updated_at_ts = lit ''2025-12-05''\<rparr>] \<and>
   tasks_ui (handleCreateTask
     \<lparr>user = Some \<lparr>id_user = lit ''u1'', email = lit ''a@b.c'', name = None\<rparr>,
      tasks_ui =
       [\<lparr>id_ts = 1, user_id = lit ''u1'', title_ts = lit ''a'', description_ts = [],
        completed_ts = False, created_at_ts = lit ''2025-12-04'',
        updated_at_ts = lit ''2025-12-04''\<rparr>,
        \<lparr>id_ts = 2, user_id = lit ''u1'', title_ts = lit ''b'', description_ts = [],
        completed_ts = False, created_at_ts = lit ''2025-12-05'',
        updated_at_ts = lit ''2025-12-05''\<rparr>],
      loading = False, newTaskTitle = lit ''c'', newTaskDescription = [],
      editingTask = None, filter_ui = F_all, showAddTask = True\<rparr>
     \<lparr>user = Some \<lparr>id_user = lit ''u1'', email = lit ''a@b.c'', name = None\<rparr>,
      tasks_ui =
       [\<lparr>id_ts = 1, user_id = lit ''u1'', title_ts = lit ''a'', description_ts = [],
        completed_ts = False, created_at_ts = lit ''2025-12-04'',
        updated_at_ts = lit ''2025-12-04''\<rparr>,
        \<lparr>id_ts = 2, user_id = lit ''u1'', title_ts = lit ''b'', description_ts = [],
        completed_ts = False, created_at_ts = lit ''2025-12-05'',
        updated_at_ts = lit ''2025-12-05''\<rparr>],
      loading = False, newTaskTitle = lit ''c'', newTaskDescription = [],
      editingTask = None, filter_ui = F_all, showAddTask = True\<rparr>
     (Some \<lparr>id_ts = 3, user_id = lit ''u1'', title_ts = lit ''c'', description_ts = [],
        completed_ts = False, created_at_ts = lit ''2025-12-06'',
        updated_at_ts = lit ''2025-12-06''\<rparr>))
   = [\<lparr>id_ts = 3, user_id = lit ''u1'', title_ts = lit ''c'', description_ts = [],
        completed_ts = False, created_at_ts = lit ''2025-12-06'',
        updated_at_ts = lit ''2025-12-06''\<rparr>,
        \<lparr>id_ts = 1, user_id = lit ''u1'', title_ts = lit ''a'', description_ts = [],
        completed_ts = False, created_at_ts = lit ''2025-12-04'',
        updated_at_ts = lit ''2025-12-04''\<rparr>,
        \<lparr>id_ts = 2, user_id = lit ''u1'', title_ts = lit ''b'', description_ts = [],
        completed_ts = False, created_at_ts = lit ''2025-12-05'',
        updated_at_ts = lit ''2025-12-05''\<rparr>] \<and>
   \<not> newest_first
     [\<lparr>id_ts = 3, user_id = lit ''u1'', title_ts = lit ''c'', description_ts = [],
        completed_ts = False, created_at_ts = lit ''2025-12-06'',
        updated_at_ts = lit ''2025-12-06''\<rparr>,
        \<lparr>id_ts = 1, user_id = lit ''u1'', title_ts = lit ''a'', description_ts = [],
        completed_ts = False, created_at_ts = lit ''2025-12-04'',
        updated_at_ts = lit ''2025-12-04''\<rparr>,
        \<lparr>id_ts = 2, user_id = lit ''u1'', title_ts = lit ''b'', description_ts = [],
        completed_ts = False, created_at_ts = lit ''2025-12-05'',
        updated_at_ts = lit ''2025-12-05''\<rparr>]"
  by (simp add: handleCreateTask_def trim_def js_isspace_def newest_first_def oldest_first_def)

end
